theory Spec2Isabelle
  imports Main
begin

section \<open>pgp-cp: copy a file to its destination if its PGP signature is trusted\<close>

text \<open>
  The program is one Python script: \<open>parse_args\<close>, \<open>log_init\<close> and \<open>main\<close>.
  \<open>main\<close> is a straight pipeline of calls into the operating system (\<open>os\<close>,
  \<open>shutil\<close>), the logging library and the GnuPG binding. The script is embedded
  with explicit state passing: a \<open>world\<close> record holds the file system, the state
  of the loggers, what the log handlers wrote, and the list of external calls made so
  far. Every \<open>raise\<close> of a library call is a value \<open>Inl e\<close>, and every
  \<open>exit(n)\<close> ends the run with status \<open>n\<close>.
\<close>

subsection \<open>Paths (posixpath)\<close>

type_synonym path = string
type_synonym bytes = string

definition slash :: char where
  "slash = CHR ''/''"

text \<open>\<open>p.rstrip('/')\<close>\<close>

definition rstrip_slash :: "path \<Rightarrow> path" where
  "rstrip_slash p = rev (dropWhile (\<lambda>c. c = slash) (rev p))"

definition all_slashes :: "path \<Rightarrow> bool" where
  "all_slashes p = list_all (\<lambda>c. c = slash) p"

definition ends_slash :: "path \<Rightarrow> bool" where
  "ends_slash p = (p \<noteq> [] \<and> last p = slash)"

text \<open>\<open>os.path.basename(p)\<close>: \<open>i = p.rfind('/') + 1; return p[i:]\<close>\<close>

definition os_path_basename :: "path \<Rightarrow> path" where
  "os_path_basename p = rev (takeWhile (\<lambda>c. c \<noteq> slash) (rev p))"

text \<open>
  \<open>os.path.dirname(p)\<close>: \<open>head = p[:i]\<close>, and the trailing slashes of the head are
  stripped unless the head consists of slashes only.
\<close>

definition os_path_dirname :: "path \<Rightarrow> path" where
  "os_path_dirname p =
     (let head = rev (dropWhile (\<lambda>c. c \<noteq> slash) (rev p))
      in if head \<noteq> [] \<and> \<not> all_slashes head then rstrip_slash head else head)"

text \<open>
  \<open>os.path.join(a, b)\<close> with two arguments: an absolute \<open>b\<close> replaces \<open>a\<close>; otherwise
  the parts are concatenated, with a slash between them unless \<open>a\<close> is empty or ends
  with one.
\<close>

definition os_path_join :: "path \<Rightarrow> path \<Rightarrow> path" where
  "os_path_join a b =
     (if b \<noteq> [] \<and> hd b = slash then b
      else if a = [] \<or> ends_slash a then a @ b
      else a @ [slash] @ b)"

text \<open>
  The components of a path, the texts between its slashes: \<open>/a//b/\<close> has five
  components, the first, the third and the last of them empty.
\<close>

fun components :: "path \<Rightarrow> string list" where
  "components [] = [[]]"
| "components (c # cs) =
     (if c = slash then [] # components cs
      else case components cs of [] \<Rightarrow> [[c]] | x # xs \<Rightarrow> (c # x) # xs)"

text \<open>
  A path in normal form: it starts at the root, and what follows are names other than
  \<open>.\<close> and \<open>..\<close> with one slash between them. (The root itself is left out.)
\<close>

definition normal :: "path \<Rightarrow> bool" where
  "normal p =
     (case components p of
        [] \<Rightarrow> False
      | r # names \<Rightarrow>
          r = [] \<and> names \<noteq> []
          \<and> list_all (\<lambda>n. n \<noteq> [] \<and> n \<noteq> ''.'' \<and> n \<noteq> ''..'') names)"

subsection \<open>The file system\<close>

text \<open>
  A file system maps the name of an entry to a regular file with its contents or to a
  directory. Names are kept without trailing slashes (\<open>key\<close>), so that \<open>q\<close> and
  \<open>q/\<close> name the same entry; no other aliasing is modelled: there are no links, no
  \<open>.\<close> or \<open>..\<close> components, and a relative name is not identified with an absolute
  one. A name whose directory part is empty lives in the current directory, which
  always exists.

  The operating system resolves more spellings than that: \<open>/q//f\<close> and \<open>/q/./f\<close>
  are the entry \<open>/q/f\<close>, so is \<open>/q/x/../f\<close> if \<open>/q/x\<close> is a directory, and so is
  \<open>f\<close> in the directory \<open>/q\<close>. Two paths in normal form (\<open>normal\<close> above: absolute,
  and no component that is empty, \<open>.\<close> or \<open>..\<close>) name the same entry of a file system
  without links, whose names are case-sensitive, exactly when they are the same text.
  What is stated below about the contents of the output path after a run is stated for
  paths in normal form.
\<close>

datatype node = File bytes | Dir

type_synonym filesystem = "path \<Rightarrow> node option"

definition key :: "path \<Rightarrow> path" where
  "key p = (if p \<noteq> [] \<and> all_slashes p then [slash] else rstrip_slash p)"

text \<open>
  What a name resolves to: the empty name resolves to nothing, and a name written with a
  trailing slash resolves to a directory only.
\<close>

definition lookup :: "filesystem \<Rightarrow> path \<Rightarrow> node option" where
  "lookup fs p =
     (if p = [] then None
      else case fs (key p) of
             Some (File d) \<Rightarrow> if ends_slash p then None else Some (File d)
           | r \<Rightarrow> r)"

definition parent_ok :: "filesystem \<Rightarrow> path \<Rightarrow> bool" where
  "parent_ok fs p =
     (let d = os_path_dirname (key p) in d = [] \<or> lookup fs d = Some Dir)"

definition os_path_exists :: "filesystem \<Rightarrow> path \<Rightarrow> bool" where
  "os_path_exists fs p = (lookup fs p \<noteq> None)"

definition os_path_isdir :: "filesystem \<Rightarrow> path \<Rightarrow> bool" where
  "os_path_isdir fs p = (lookup fs p = Some Dir)"

text \<open>
  \<open>os.path.samefile\<close> as \<open>shutil\<close> uses it: two names that both resolve, to the same
  entry. A name that does not resolve is the same file as nothing.
\<close>

definition samefile :: "filesystem \<Rightarrow> path \<Rightarrow> path \<Rightarrow> bool" where
  "samefile fs a b = (lookup fs a \<noteq> None \<and> lookup fs b \<noteq> None \<and> key a = key b)"

subsection \<open>Exceptions\<close>

datatype exn =
    FileNotFoundError path
  | FileExistsError path
  | IsADirectoryError path
  | NotADirectoryError path
  | SameFileError path path
  | ShutilError path
  | AttributeError string
  | UnboundLocalError string
  | SocketError string
  | GnuPGError string

text \<open>\<open>str(error_msg)\<close>, as the log messages print an exception.\<close>

fun str_exn :: "exn \<Rightarrow> string" where
  "str_exn (FileNotFoundError p) = ''[Errno 2] No such file or directory: '' @ p"
| "str_exn (FileExistsError p) = ''[Errno 17] File exists: '' @ p"
| "str_exn (IsADirectoryError p) = ''[Errno 21] Is a directory: '' @ p"
| "str_exn (NotADirectoryError p) = ''[Errno 20] Not a directory: '' @ p"
| "str_exn (SameFileError a b) = a @ '' and '' @ b @ '' are the same file''"
| "str_exn (ShutilError p) = ''Destination path '' @ p @ '' already exists''"
| "str_exn (AttributeError m) = m"
| "str_exn (UnboundLocalError m) = m"
| "str_exn (SocketError m) = m"
| "str_exn (GnuPGError m) = m"

subsection \<open>File operations (os, shutil, open)\<close>

text \<open>\<open>open(p)\<close> for reading, and reading the stream to its end.\<close>

definition read_file :: "filesystem \<Rightarrow> path \<Rightarrow> exn + bytes" where
  "read_file fs p =
     (if \<not> parent_ok fs p then Inl (FileNotFoundError p)
      else case lookup fs p of
             None \<Rightarrow> Inl (FileNotFoundError p)
           | Some Dir \<Rightarrow> Inl (IsADirectoryError p)
           | Some (File d) \<Rightarrow> Inr d)"

text \<open>\<open>open(p, 'wb')\<close> and writing \<open>d\<close>: the file is created or truncated.\<close>

definition write_file :: "filesystem \<Rightarrow> path \<Rightarrow> bytes \<Rightarrow> exn + filesystem" where
  "write_file fs p d =
     (if p = [] then Inl (FileNotFoundError p)
      else if ends_slash p \<or> fs (key p) = Some Dir then Inl (IsADirectoryError p)
      else if \<not> parent_ok fs p then Inl (FileNotFoundError p)
      else Inr (fs(key p \<mapsto> File d)))"

text \<open>\<open>os.mkdir(p)\<close>\<close>

definition os_mkdir :: "filesystem \<Rightarrow> path \<Rightarrow> exn + filesystem" where
  "os_mkdir fs p =
     (if p = [] then Inl (FileNotFoundError p)
      else if fs (key p) \<noteq> None then Inl (FileExistsError p)
      else if \<not> parent_ok fs p then Inl (FileNotFoundError p)
      else Inr (fs(key p \<mapsto> Dir)))"

text \<open>
  \<open>shutil.copy(src, dst)\<close>: a destination that is a directory stands for the entry
  named after the source inside it; then \<open>copyfile\<close> refuses to copy a file onto
  itself, opens the source for reading and the destination for writing, and copies.
\<close>

definition shutil_copy :: "filesystem \<Rightarrow> path \<Rightarrow> path \<Rightarrow> exn + filesystem" where
  "shutil_copy fs src dst =
     (let dst' = (if os_path_isdir fs dst
                  then os_path_join dst (os_path_basename src) else dst)
      in if samefile fs src dst' then Inl (SameFileError src dst')
         else case read_file fs src of
                Inl e \<Rightarrow> Inl e
              | Inr d \<Rightarrow> write_file fs dst' d)"

text \<open>
  \<open>shutil.move(src, dst)\<close> of a regular file. A destination that is a directory
  stands for the entry named after the source inside it, which must not exist yet.
  The file is renamed; renaming a file to itself changes nothing. Devices are not
  modelled, so the fall-back for a rename across devices (copy, then unlink) moves the
  same contents under the same conditions. Moving a directory tree is not modelled
  and is reported as an error: \<open>main\<close> moves the file it has just read.
\<close>

definition shutil_move :: "filesystem \<Rightarrow> path \<Rightarrow> path \<Rightarrow> exn + filesystem" where
  "shutil_move fs src dst =
     (let real_dst = (if os_path_isdir fs dst
                      then os_path_join dst (os_path_basename (rstrip_slash src)) else dst)
      in if os_path_isdir fs dst \<and> \<not> samefile fs src dst \<and> os_path_exists fs real_dst
         then Inl (ShutilError real_dst)
         else case read_file fs src of
                Inl e \<Rightarrow> Inl e
              | Inr d \<Rightarrow>
                  (case write_file (fs(key src := None)) real_dst d of
                     Inl e \<Rightarrow> Inl e
                   | Inr fs' \<Rightarrow> Inr fs'))"

text \<open>\<open>os.remove(p)\<close>\<close>

definition os_remove :: "filesystem \<Rightarrow> path \<Rightarrow> exn + filesystem" where
  "os_remove fs p =
     (if \<not> parent_ok fs p then Inl (FileNotFoundError p)
      else case lookup fs p of
             None \<Rightarrow> Inl (FileNotFoundError p)
           | Some Dir \<Rightarrow> Inl (IsADirectoryError p)
           | Some (File d) \<Rightarrow> Inr (fs(key p := None)))"

subsection \<open>String formatting\<close>

text \<open>
  \<open>fmt % (a, b, ...)\<close> for the conversions the script uses, \<open>%s\<close> and \<open>%i\<close>: the
  arguments are given as text already, and each conversion is replaced by the next one.
\<close>

fun fmt :: "string \<Rightarrow> string list \<Rightarrow> string" where
  "fmt [] as = []"
| "fmt (c # cs) as =
     (if c = CHR ''%'' then
        (case cs of
           [] \<Rightarrow> [c]
         | d # ds \<Rightarrow> (case as of [] \<Rightarrow> c # d # fmt ds [] | a # as' \<Rightarrow> a @ fmt ds as'))
      else c # fmt cs as)"

declare fmt.simps [simp del]

fun str_nat :: "nat \<Rightarrow> string" where
  "str_nat n =
     (if n < 10 then [''0123456789'' ! n]
      else str_nat (n div 10) @ [''0123456789'' ! (n mod 10)])"

declare str_nat.simps [simp del]

definition str_int :: "int \<Rightarrow> string" where
  "str_int i = (if i < 0 then CHR ''-'' # str_nat (nat (- i)) else str_nat (nat i))"

subsection \<open>The GnuPG binding\<close>

text \<open>
  What \<open>gpg.verify_file\<close> returns: the fields of the result that \<open>main\<close> reads.
\<close>

record verification =
  valid :: bool
  creation_date :: string
  username :: string
  key_id :: string
  trust_level :: int

datatype gpg = GPG string

subsection \<open>Command-line arguments\<close>

record args =
  input_path :: string
  sig_path :: string
  output_path :: string
  required_trust_level :: int
  quar_dir :: string
  gpg_home :: string
  log_dest :: string
  log_verbose :: bool

text \<open>
  The command line as \<open>argparse\<close> sees it once it has split it into options: each
  option of the parser with its argument, in the order given. The paths and the names
  are the text as typed. The parser declares \<open>type=int\<close> for the trust level and
  converts the text with the builtin \<open>int\<close> before it looks at the \<open>choices\<close>; the
  builtin is not part of the script, so the option carries what \<open>int\<close> makes of the
  text: \<open>Some n\<close>, or \<open>None\<close> when \<open>int\<close> raises ValueError.
\<close>

datatype opt =
    OptInput string
  | OptSig string
  | OptOutput string
  | OptTrustLevel "int option"
  | OptQuar string
  | OptGpgHome string
  | OptLogDest string
  | OptVerbose
  | OptVersion
  | OptHelp
  | OptUnrecognized string

text \<open>
  The namespace while the options are consumed: the three required paths are still
  optional, \<open>ns_args\<close> holds the defaults until an option replaces them, and
  \<open>ns_extras\<close> says that an unrecognized argument was seen.
\<close>

record namespace =
  ns_input :: "string option"
  ns_sig :: "string option"
  ns_output :: "string option"
  ns_args :: args
  ns_extras :: bool

definition default_namespace :: namespace where
  "default_namespace =
     \<lparr>ns_input = None, ns_sig = None, ns_output = None,
      ns_args = \<lparr>input_path = [], sig_path = [], output_path = [],
                 required_trust_level = 3, quar_dir = ''~/pgp-cp_quar'',
                 gpg_home = ''~/.gnupg'', log_dest = ''stream'', log_verbose = False\<rparr>,
      ns_extras = False\<rparr>"

text \<open>
  The options are consumed from left to right. A value outside the \<open>choices\<close> of its
  option, or one that \<open>int\<close> rejects, is reported through \<open>parser.error\<close>, which
  ends the program with status 2; the version and help actions print and end it with
  status 0, all at the place where the option stands.
\<close>

fun consume :: "opt list \<Rightarrow> namespace \<Rightarrow> int + namespace" where
  "consume [] ns = Inr ns"
| "consume (OptInput s # os) ns = consume os (ns\<lparr>ns_input := Some s\<rparr>)"
| "consume (OptSig s # os) ns = consume os (ns\<lparr>ns_sig := Some s\<rparr>)"
| "consume (OptOutput s # os) ns = consume os (ns\<lparr>ns_output := Some s\<rparr>)"
| "consume (OptTrustLevel v # os) ns =
     (case v of
        None \<Rightarrow> Inl 2
      | Some n \<Rightarrow>
          if n \<in> set [2, 3, 4]
          then consume os (ns\<lparr>ns_args := (ns_args ns)\<lparr>required_trust_level := n\<rparr>\<rparr>)
          else Inl 2)"
| "consume (OptQuar s # os) ns = consume os (ns\<lparr>ns_args := (ns_args ns)\<lparr>quar_dir := s\<rparr>\<rparr>)"
| "consume (OptGpgHome s # os) ns = consume os (ns\<lparr>ns_args := (ns_args ns)\<lparr>gpg_home := s\<rparr>\<rparr>)"
| "consume (OptLogDest s # os) ns =
     (if s \<in> set [''stream'', ''syslog'', ''none'']
      then consume os (ns\<lparr>ns_args := (ns_args ns)\<lparr>log_dest := s\<rparr>\<rparr>)
      else Inl 2)"
| "consume (OptVerbose # os) ns = consume os (ns\<lparr>ns_args := (ns_args ns)\<lparr>log_verbose := True\<rparr>\<rparr>)"
| "consume (OptVersion # os) ns = Inl 0"
| "consume (OptHelp # os) ns = Inl 0"
| "consume (OptUnrecognized s # os) ns = consume os (ns\<lparr>ns_extras := True\<rparr>)"

text \<open>
  \<open>parse_args\<close>: after the last option a missing required argument, and then an
  unrecognized one, is an error (status 2); otherwise the namespace is returned.
\<close>

definition parse_args :: "opt list \<Rightarrow> int + args" where
  "parse_args argv =
     (case consume argv default_namespace of
        Inl status \<Rightarrow> Inl status
      | Inr ns \<Rightarrow>
          (case (ns_input ns, ns_sig ns, ns_output ns) of
             (Some i, Some s, Some out) \<Rightarrow>
               if ns_extras ns then Inl 2
               else Inr ((ns_args ns)\<lparr>input_path := i, sig_path := s, output_path := out\<rparr>)
           | _ \<Rightarrow> Inl 2))"

subsection \<open>The world of a run\<close>

datatype level = DEBUG | INFO | WARNING | ERROR

fun levelno :: "level \<Rightarrow> nat" where
  "levelno DEBUG = 10"
| "levelno INFO = 20"
| "levelno WARNING = 30"
| "levelno ERROR = 40"

fun levelname :: "level \<Rightarrow> string" where
  "levelname DEBUG = ''DEBUG''"
| "levelname INFO = ''INFO''"
| "levelname WARNING = ''WARNING''"
| "levelname ERROR = ''ERROR''"

datatype handler = StreamHandler | SysLogHandler string | CustomNullHandler

text \<open>
  The calls a run makes outside the script, in the order it makes them. The two calls
  into GnuPG are recorded with what they returned.
\<close>

datatype call =
    GPGInit string "exn option"
  | Exists path
  | Mkdir path
  | Copy path path
  | Open path
  | VerifyFile bytes path "exn + verification"
  | Move path path
  | Remove path

text \<open>
  \<open>records\<close> are the log records the logger \<open>pgp-cp\<close> has passed to its handlers;
  \<open>stderr\<close> and \<open>syslog\<close> are what the handlers wrote.
\<close>

record world =
  files :: filesystem
  calls :: "call list"
  logger_level :: nat
  logger_handlers :: "handler list"
  gnupg_logger_level :: nat
  gnupg_logger_handlers :: "handler list"
  records :: "(level \<times> string) list"
  stderr :: "string list"
  syslog :: "string list"
  stdout :: "string list"

text \<open>
  What a run reads from its environment and does not change. \<open>import_error\<close> is the
  failure of the imports at the top of the script, if any. \<open>logging_handlers_loaded\<close>
  says whether some imported module has loaded the submodule \<open>logging.handlers\<close>
  (the script itself imports \<open>logging\<close> only), \<open>dev_log_connects\<close> whether the
  socket \<open>/dev/log\<close> accepts a connection. \<open>user_home\<close> gives the home directory
  of a user, the empty name standing for the current one. \<open>str_args\<close> is \<open>str\<close> of
  the namespace. The last two fields are the GnuPG binding: the constructor
  \<open>gnupg.GPG(homedir=...)\<close> and \<open>verify_file\<close>, which is given the data read from
  the open file, the name of the signature file, and the file system to read it from.
\<close>

record env =
  import_error :: "string option"
  logging_handlers_loaded :: bool
  dev_log_connects :: bool
  os_getuid :: nat
  user_home :: "string \<Rightarrow> string option"
  str_args :: "args \<Rightarrow> string"
  gnupg_GPG :: "string \<Rightarrow> exn + gpg"
  verify_file :: "gpg \<Rightarrow> bytes \<Rightarrow> path \<Rightarrow> filesystem \<Rightarrow> exn + verification"

text \<open>
  \<open>os.path.expanduser(p)\<close>: a leading \<open>~\<close> or \<open>~user\<close> is replaced by that user's
  home directory without its trailing slashes; a path of an unknown user is returned
  as it is.
\<close>

definition os_path_expanduser :: "env \<Rightarrow> path \<Rightarrow> path" where
  "os_path_expanduser env p =
     (case p of
        [] \<Rightarrow> p
      | c # cs \<Rightarrow>
          if c \<noteq> CHR ''~'' then p
          else (case user_home env (takeWhile (\<lambda>c. c \<noteq> slash) cs) of
                  None \<Rightarrow> p
                | Some userhome \<Rightarrow>
                    let r = rstrip_slash userhome @ dropWhile (\<lambda>c. c \<noteq> slash) cs
                    in if r = [] then [slash] else r))"

subsection \<open>Logging\<close>

text \<open>The formatter \<open>'pgp-cp: %(levelname)s - %(message)s'\<close>.\<close>

definition format_record :: "level \<Rightarrow> string \<Rightarrow> string" where
  "format_record l m = ''pgp-cp: '' @ levelname l @ '' - '' @ m"

fun emit :: "level \<Rightarrow> string \<Rightarrow> handler \<Rightarrow> world \<Rightarrow> world" where
  "emit l m StreamHandler w = w\<lparr>stderr := stderr w @ [format_record l m]\<rparr>"
| "emit l m (SysLogHandler address) w = w\<lparr>syslog := syslog w @ [format_record l m]\<rparr>"
| "emit l m CustomNullHandler w = w"

text \<open>
  \<open>logger.log(l, m)\<close>: a record below the level of the logger is dropped; any other is
  passed to every handler of the logger.
\<close>

definition logger_log :: "level \<Rightarrow> string \<Rightarrow> world \<Rightarrow> world" where
  "logger_log l m w =
     (if levelno l < logger_level w then w
      else fold (emit l m) (logger_handlers w) (w\<lparr>records := records w @ [(l, m)]\<rparr>))"

abbreviation logger_debug :: "string \<Rightarrow> world \<Rightarrow> world" where
  "logger_debug \<equiv> logger_log DEBUG"

abbreviation logger_info :: "string \<Rightarrow> world \<Rightarrow> world" where
  "logger_info \<equiv> logger_log INFO"

abbreviation logger_error :: "string \<Rightarrow> world \<Rightarrow> world" where
  "logger_error \<equiv> logger_log ERROR"

text \<open>
  \<open>log_init(destination, verbose)\<close>. The handler for \<open>syslog\<close> is looked up as
  \<open>logging.handlers.SysLogHandler\<close>, which raises AttributeError unless the
  submodule has been loaded, and its constructor connects to \<open>/dev/log\<close>. A
  destination that is none of the three leaves \<open>log_handler\<close> unbound.
\<close>

definition log_init :: "env \<Rightarrow> string \<Rightarrow> bool \<Rightarrow> world \<Rightarrow> (exn + unit) \<times> world" where
  "log_init env destination verbose w =
     (let w1 = (if verbose then w\<lparr>logger_level := levelno DEBUG, gnupg_logger_level := levelno DEBUG\<rparr>
                else w\<lparr>logger_level := levelno INFO\<rparr>);
          h = (if destination = ''stream'' then Inr StreamHandler
               else if destination = ''syslog'' then
                 (if \<not> logging_handlers_loaded env
                  then Inl (AttributeError ''module logging has no attribute handlers'')
                  else if \<not> dev_log_connects env
                  then Inl (SocketError ''[Errno 2] No such file or directory'')
                  else Inr (SysLogHandler ''/dev/log''))
               else if destination = ''none'' then Inr CustomNullHandler
               else Inl (UnboundLocalError ''local variable log_handler referenced before assignment''))
      in case h of
           Inl e \<Rightarrow> (Inl e, w1)
         | Inr log_handler \<Rightarrow>
             let w2 = w1\<lparr>logger_handlers := logger_handlers w1 @ [log_handler]\<rparr>;
                 w3 = (if verbose
                       then w2\<lparr>gnupg_logger_handlers := gnupg_logger_handlers w2 @ [log_handler]\<rparr>
                       else w2)
             in (Inr (), w3))"

subsection \<open>External calls of a run\<close>

definition record_call :: "call \<Rightarrow> world \<Rightarrow> world" where
  "record_call c w = w\<lparr>calls := calls w @ [c]\<rparr>"

definition fs_op :: "call \<Rightarrow> (filesystem \<Rightarrow> exn + filesystem) \<Rightarrow> world \<Rightarrow> (exn + unit) \<times> world" where
  "fs_op c f w =
     (case f (files w) of
        Inl e \<Rightarrow> (Inl e, record_call c w)
      | Inr fs' \<Rightarrow> (Inr (), record_call c (w\<lparr>files := fs'\<rparr>)))"

definition do_exists :: "path \<Rightarrow> world \<Rightarrow> bool \<times> world" where
  "do_exists p w = (os_path_exists (files w) p, record_call (Exists p) w)"

definition do_mkdir :: "path \<Rightarrow> world \<Rightarrow> (exn + unit) \<times> world" where
  "do_mkdir p = fs_op (Mkdir p) (\<lambda>fs. os_mkdir fs p)"

definition do_copy :: "path \<Rightarrow> path \<Rightarrow> world \<Rightarrow> (exn + unit) \<times> world" where
  "do_copy src dst = fs_op (Copy src dst) (\<lambda>fs. shutil_copy fs src dst)"

definition do_move :: "path \<Rightarrow> path \<Rightarrow> world \<Rightarrow> (exn + unit) \<times> world" where
  "do_move src dst = fs_op (Move src dst) (\<lambda>fs. shutil_move fs src dst)"

definition do_remove :: "path \<Rightarrow> world \<Rightarrow> (exn + unit) \<times> world" where
  "do_remove p = fs_op (Remove p) (\<lambda>fs. os_remove fs p)"

definition do_open :: "path \<Rightarrow> world \<Rightarrow> (exn + bytes) \<times> world" where
  "do_open p w = (read_file (files w) p, record_call (Open p) w)"

definition do_GPG :: "env \<Rightarrow> string \<Rightarrow> world \<Rightarrow> (exn + gpg) \<times> world" where
  "do_GPG env homedir w =
     (case gnupg_GPG env homedir of
        Inl e \<Rightarrow> (Inl e, record_call (GPGInit homedir (Some e)) w)
      | Inr g \<Rightarrow> (Inr g, record_call (GPGInit homedir None) w))"

definition do_verify_file :: "env \<Rightarrow> gpg \<Rightarrow> bytes \<Rightarrow> path \<Rightarrow> world \<Rightarrow> (exn + verification) \<times> world" where
  "do_verify_file env g d sig_file w =
     (let r = verify_file env g d sig_file (files w)
      in (r, record_call (VerifyFile d sig_file r) w))"

subsection \<open>The script\<close>

definition sys_exit :: "int \<Rightarrow> world \<Rightarrow> int \<times> world" where
  "sys_exit status w = (status, w)"

text \<open>An exception that nothing catches: the traceback is printed and the status is 1.\<close>

definition uncaught :: "exn \<Rightarrow> world \<Rightarrow> int \<times> world" where
  "uncaught e w = (1, w\<lparr>stderr := stderr w @ [''Traceback (most recent call last): '' @ str_exn e]\<rparr>)"

text \<open>
  The body of the \<open>try\<close> that sets up the quarantine: it returns the new paths of the
  input file and of its signature, or the exception that the handler of the \<open>try\<close>
  reports.
\<close>

definition quarantine :: "env \<Rightarrow> args \<Rightarrow> world \<Rightarrow> (exn + path \<times> path) \<times> world" where
  \<open>quarantine env a w =
     (let qd = os_path_expanduser env (quar_dir a) in
      case do_exists qd w of (present, w1) \<Rightarrow>
     (case (if \<not> present
            then do_mkdir qd
                   (logger_info (fmt ''Creating quarantine directory "%s"'' [quar_dir a]) w1)
            else (Inr (), w1)) of
        (Inl e, w2) \<Rightarrow> (Inl e, w2)
      | (Inr _, w2) \<Rightarrow>
     (let w3 = logger_info
                 (fmt ''Copying input file "%s" and signature "%s" to quarantine "%s"''
                    [input_path a, sig_path a, quar_dir a]) w2 in
      case do_copy (input_path a) qd w3 of
        (Inl e, w4) \<Rightarrow> (Inl e, w4)
      | (Inr _, w4) \<Rightarrow>
     (case do_copy (sig_path a) qd w4 of
        (Inl e, w5) \<Rightarrow> (Inl e, w5)
      | (Inr _, w5) \<Rightarrow>
     (let w6 = logger_debug ''Building new file paths for input'' w5 in
      (Inr (os_path_join qd (os_path_basename (input_path a)),
            os_path_join qd (os_path_basename (sig_path a))), w6))))))\<close>

text \<open>\<open>gpg.verify_file(open(input_path), sig_file=sig_path)\<close>\<close>

definition load_signed :: "env \<Rightarrow> gpg \<Rightarrow> path \<Rightarrow> path \<Rightarrow> world \<Rightarrow> (exn + verification) \<times> world" where
  "load_signed env g input_path' sig_path' w =
     (case do_open input_path' w of
        (Inl e, w1) \<Rightarrow> (Inl e, w1)
      | (Inr d, w1) \<Rightarrow> do_verify_file env g d sig_path' w1)"

text \<open>The body of the last \<open>try\<close>: \<open>shutil.move\<close>, then \<open>os.remove\<close>.\<close>

definition move_out :: "path \<Rightarrow> path \<Rightarrow> path \<Rightarrow> world \<Rightarrow> (exn + unit) \<times> world" where
  "move_out input_path' sig_path' output w =
     (case do_move input_path' output w of
        (Inl e, w1) \<Rightarrow> (Inl e, w1)
      | (Inr _, w1) \<Rightarrow> do_remove sig_path' w1)"

text \<open>
  \<open>main\<close> is given in two parts. \<open>main_verify\<close> is its second half, from the
  message \<open>Verifying signature ...\<close> to the end: the trust gate and the move to the
  output path, for the result \<open>input_data\<close> of the verification and the two paths in
  the quarantine.
\<close>

definition main_verify :: "args \<Rightarrow> path \<Rightarrow> path \<Rightarrow> verification \<Rightarrow> world \<Rightarrow> int \<times> world" where
  \<open>main_verify a input_path' sig_path' input_data w8 =
     (let w9 = logger_info ''Verifying signature of input file against trust database'' w8 in
      if \<not> valid input_data
      then sys_exit 1
             (logger_error (fmt ''Signature of file "%s" is not valid'' [input_path']) w9)
      else
     (let w10 = logger_info
                  (fmt ''Sinature was signed at "%s" by "%s" with key ID "%s"''
                     [creation_date input_data, username input_data, key_id input_data]) w9 in
      if trust_level input_data < required_trust_level a
      then sys_exit 2
             (logger_error
                (fmt ''Trust level "%i" of signature did not meet specified requirements''
                   [str_int (trust_level input_data)]) w10)
      else
     (let w11 = logger_debug
                  (fmt ''Trust level of signature: "%i"'' [str_int (trust_level input_data)]) w10;
          w12 = logger_info
                  (fmt ''Moving quarantined file "%s" to output target "%s"''
                     [input_path', output_path a]) w11 in
      case move_out input_path' sig_path' (output_path a) w12 of
        (Inl e, w13) \<Rightarrow>
          sys_exit 1
            (logger_error
               (fmt ''Failed to create file "%s": "%s"'' [output_path a, str_exn e]) w13)
      | (Inr _, w13) \<Rightarrow>
          sys_exit 0
            (logger_info
               (fmt ''Successfully copied input file "%s" to output file "%s"''
                  [input_path a, output_path a]) w13))))\<close>

text \<open>
  The first half of \<open>main\<close>: arguments, logging, the GnuPG instance, the quarantine and
  the call of \<open>verify_file\<close>.
\<close>

definition main :: "env \<Rightarrow> opt list \<Rightarrow> world \<Rightarrow> int \<times> world" where
  \<open>main env argv w0 =
     (case parse_args argv of
        Inl status \<Rightarrow> sys_exit status w0
      | Inr a \<Rightarrow>
     (case log_init env (log_dest a) (log_verbose a) w0 of
        (Inl e, w1) \<Rightarrow> uncaught e w1
      | (Inr _, w1) \<Rightarrow>
     (let w2 = logger_debug
                 (fmt ''Application started by user ID "%i" with arguments: "%s"''
                    [str_nat (os_getuid env), str_args env a]) w1;
          w3 = logger_debug (fmt ''Creating GnuPG instance with home "%s"'' [gpg_home a]) w2 in
      case do_GPG env (gpg_home a) w3 of
        (Inl e, w4) \<Rightarrow>
          sys_exit 1 (logger_error (fmt ''Failed to initialize GnuPG: "%s"'' [str_exn e]) w4)
      | (Inr g, w4) \<Rightarrow>
     (let w5 = logger_debug (fmt ''Setting up quarantine directory in "%s"'' [quar_dir a]) w4 in
      case quarantine env a w5 of
        (Inl e, w6) \<Rightarrow>
          sys_exit 1
            (logger_error
               (fmt ''Failed to quaratine input file "%s" in "%s": "%s"''
                  [input_path a, quar_dir a, str_exn e]) w6)
      | (Inr (input_path', sig_path'), w6) \<Rightarrow>
     (let w7 = logger_info (fmt ''Loading signed input file from "%s"'' [input_path']) w6 in
      case load_signed env g input_path' sig_path' w7 of
        (Inl e, w8) \<Rightarrow>
          sys_exit 1 (logger_error (fmt ''Failed to open input file: "%s"'' [str_exn e]) w8)
      | (Inr input_data, w8) \<Rightarrow> main_verify a input_path' sig_path' input_data w8)))))\<close>

text \<open>
  The script from its first line: the imports (status 3 if one fails), the logger
  \<open>pgp-cp\<close>, which starts without handlers and at the level it inherits (WARNING), and
  the call of \<open>main\<close>.
\<close>

definition init_world :: "filesystem \<Rightarrow> world" where
  "init_world fs0 =
     \<lparr>files = fs0, calls = [], logger_level = levelno WARNING, logger_handlers = [],
      gnupg_logger_level = levelno WARNING, gnupg_logger_handlers = [],
      records = [], stderr = [], syslog = [], stdout = []\<rparr>"

definition script :: "env \<Rightarrow> opt list \<Rightarrow> filesystem \<Rightarrow> int \<times> world" where
  \<open>script env argv fs0 =
     (case import_error env of
        Some error_msg \<Rightarrow>
          sys_exit 3
            ((init_world fs0)\<lparr>stdout := [fmt ''Failed to import dependencies: "%s"'' [error_msg]]\<rparr>)
      | None \<Rightarrow> main env argv (init_world fs0))\<close>

subsection \<open>Names for what the stager builds\<close>

text \<open>
  The quarantine directory after \<open>expanduser\<close>, and the two paths that \<open>main\<close> builds
  with \<open>os.path.join(quar_dir, os.path.basename(...))\<close>.
\<close>

definition quarantine_dir :: "env \<Rightarrow> args \<Rightarrow> path" where
  "quarantine_dir env a = os_path_expanduser env (quar_dir a)"

definition staged_input :: "env \<Rightarrow> args \<Rightarrow> path" where
  "staged_input env a = os_path_join (quarantine_dir env a) (os_path_basename (input_path a))"

definition staged_sig :: "env \<Rightarrow> args \<Rightarrow> path" where
  "staged_sig env a = os_path_join (quarantine_dir env a) (os_path_basename (sig_path a))"

text \<open>
  The four paths of a run are in normal form: the quarantine directory, the caller's
  input and signature path, and the output path.
\<close>

definition normal_paths :: "env \<Rightarrow> args \<Rightarrow> bool" where
  "normal_paths env a =
     (normal (quarantine_dir env a) \<and> normal (input_path a) \<and> normal (sig_path a)
      \<and> normal (output_path a))"

text \<open>
  The file system that a successful staging leaves behind, in closed form: the
  quarantine directory, the copy of the input file, and over it the copy of the
  signature. (That the stager computes this is lemma \<open>reach_gate\<close> below.)
\<close>

definition quarantined :: "env \<Rightarrow> args \<Rightarrow> filesystem \<Rightarrow> filesystem" where
  "quarantined env a fs0 =
     (case lookup fs0 (input_path a) of
        Some (File din) \<Rightarrow>
          (case lookup fs0 (sig_path a) of
             Some (File s) \<Rightarrow>
               fs0(key (quarantine_dir env a) \<mapsto> Dir,
                   key (staged_input env a) \<mapsto> File din,
                   key (staged_sig env a) \<mapsto> File s)
           | _ \<Rightarrow> fs0)
      | _ \<Rightarrow> fs0)"

text \<open>
  The paths that the verification and the final operations of a run act on: the file
  opened for \<open>verify_file\<close>, its \<open>sig_file\<close>, the source of the move and the file
  removed. (The destination of the move is the output path.)
\<close>

fun operand_paths :: "call \<Rightarrow> path list" where
  "operand_paths (Open p) = [p]"
| "operand_paths (VerifyFile d s r) = [s]"
| "operand_paths (Move src dst) = [src]"
| "operand_paths (Remove p) = [p]"
| "operand_paths c = []"

text \<open>\<open>p\<close> names an entry of the directory \<open>d\<close>.\<close>

definition inside :: "path \<Rightarrow> path \<Rightarrow> bool" where
  "inside d p = (os_path_basename p \<noteq> [] \<and> p = os_path_join d (os_path_basename p))"

subsection \<open>A small world for examples\<close>

text \<open>
  An engine for the examples: a signature file is valid for the data if it holds the
  data after the word \<open>signed:\<close>; every key has the trust level \<open>t\<close>.
\<close>

definition toy_verify :: "int \<Rightarrow> gpg \<Rightarrow> bytes \<Rightarrow> path \<Rightarrow> filesystem \<Rightarrow> exn + verification" where
  "toy_verify t g d s fs =
     (case lookup fs s of
        Some (File sg) \<Rightarrow>
          Inr \<lparr>valid = (sg = ''signed:'' @ d), creation_date = ''2015-03-01'',
               username = ''Alice'', key_id = ''0xA1'', trust_level = t\<rparr>
      | _ \<Rightarrow> Inl (GnuPGError ''no signature''))"

definition toy_env :: "int \<Rightarrow> env" where
  "toy_env t =
     \<lparr>import_error = None, logging_handlers_loaded = False, dev_log_connects = False,
      os_getuid = 1000, user_home = (\<lambda>u. if u = [] then Some ''/home/u'' else None),
      str_args = (\<lambda>a. ''Namespace''), gnupg_GPG = (\<lambda>h. Inr (GPG h)),
      verify_file = toy_verify t\<rparr>"

definition broken_env :: env where
  "broken_env = (toy_env 3)\<lparr>gnupg_GPG := (\<lambda>h. Inl (GnuPGError ''no such home''))\<rparr>"

definition demo_fs :: filesystem where
  "demo_fs = map_of
     [(''/'', Dir), (''/in'', Dir), (''/in/a.bin'', File ''data''),
      (''/in/a.bin.sig'', File ''signed:data''), (''/in/bad.sig'', File ''signed:other''),
      (''/sigs'', Dir), (''/sigs/a.bin'', File ''signed:data''),
      (''/out'', Dir), (''/home'', Dir), (''/home/u'', Dir)]"

definition demo_argv :: "opt list" where
  "demo_argv = [OptInput ''/in/a.bin'', OptSig ''/in/a.bin.sig'', OptOutput ''/out/output.bin'']"

definition demo_args :: args where
  "demo_args =
     \<lparr>input_path = ''/in/a.bin'', sig_path = ''/in/a.bin.sig'', output_path = ''/out/output.bin'',
      required_trust_level = 3, quar_dir = ''~/pgp-cp_quar'', gpg_home = ''~/.gnupg'',
      log_dest = ''stream'', log_verbose = False\<rparr>"

definition demo_report :: "bool \<Rightarrow> int \<Rightarrow> verification" where
  "demo_report v t =
     \<lparr>valid = v, creation_date = ''2015-03-01'', username = ''Alice'', key_id = ''0xA1'',
      trust_level = t\<rparr>"

text \<open>The same run with an output path in a directory that does not exist.\<close>

definition nowhere_argv :: "opt list" where
  "nowhere_argv =
     [OptInput ''/in/a.bin'', OptSig ''/in/a.bin.sig'', OptOutput ''/nowhere/output.bin'']"

text \<open>A signature that does not belong to the input file.\<close>

definition bad_sig_argv :: "opt list" where
  "bad_sig_argv = [OptInput ''/in/a.bin'', OptSig ''/in/bad.sig'', OptOutput ''/out/output.bin'']"

text \<open>Input and signature with the same base name, in two directories.\<close>

definition same_name_argv :: "opt list" where
  "same_name_argv = [OptInput ''/in/a.bin'', OptSig ''/sigs/a.bin'', OptOutput ''/out/output.bin'']"

text \<open>
  An output path that is the path of the staged input: the quarantine directory
  \<open>~/pgp-cp_quar\<close> of the examples is \<open>/home/u/pgp-cp_quar\<close>.
\<close>

definition staged_output_argv :: "opt list" where
  "staged_output_argv =
     [OptInput ''/in/a.bin'', OptSig ''/in/a.bin.sig'', OptOutput ''/home/u/pgp-cp_quar/a.bin'']"

definition bad_sig_staged_output_argv :: "opt list" where
  "bad_sig_staged_output_argv =
     [OptInput ''/in/a.bin'', OptSig ''/in/bad.sig'', OptOutput ''/home/u/pgp-cp_quar/a.bin'']"

text \<open>A trust level that is not among the choices of the parser.\<close>

definition trust_5_argv :: "opt list" where
  "trust_5_argv = demo_argv @ [OptTrustLevel (Some 5)]"

section \<open>Lemmas\<close>

subsection \<open>Paths\<close>

lemma basename_no_slash: "slash \<notin> set (os_path_basename p)"
  unfolding os_path_basename_def by (auto dest: set_takeWhileD)

lemma rstrip_plain: "\<not> ends_slash p \<Longrightarrow> rstrip_slash p = p"
  by (cases p rule: rev_cases) (auto simp: rstrip_slash_def ends_slash_def)

lemma all_slashes_ends: "p \<noteq> [] \<Longrightarrow> all_slashes p \<Longrightarrow> ends_slash p"
  by (cases p rule: rev_cases) (auto simp: all_slashes_def ends_slash_def)

lemma key_plain: "\<not> ends_slash p \<Longrightarrow> key p = p"
  using all_slashes_ends [of p] by (auto simp: key_def rstrip_plain)

lemma rstrip_Nil_iff: "rstrip_slash p = [] \<longleftrightarrow> all_slashes p"
  by (auto simp: rstrip_slash_def all_slashes_def dropWhile_eq_Nil_conv list_all_iff)

lemma key_Nil_iff: "key p = [] \<longleftrightarrow> p = []"
  by (auto simp: key_def rstrip_Nil_iff all_slashes_def)

lemma ends_slash_join_Nil: "qd \<noteq> [] \<Longrightarrow> ends_slash (os_path_join qd [])"
  by (auto simp: os_path_join_def ends_slash_def)

lemma join_eq: "slash \<notin> set b \<Longrightarrow> os_path_join qd b = (if qd = [] \<or> ends_slash qd then qd @ b else qd @ [slash] @ b)"
  by (cases b) (auto simp: os_path_join_def)


lemma takeWhile_upto_slash: "slash \<notin> set xs \<Longrightarrow> takeWhile (\<lambda>c. c \<noteq> slash) (xs @ slash # ys) = xs"
  by (induction xs) auto

lemma takeWhile_no_slash: "slash \<notin> set xs \<Longrightarrow> takeWhile (\<lambda>c. c \<noteq> slash) xs = xs"
  by (induction xs) auto

lemma dropWhile_upto_slash: "slash \<notin> set xs \<Longrightarrow> dropWhile (\<lambda>c. c \<noteq> slash) (xs @ slash # ys) = slash # ys"
  by (induction xs) auto

lemma dropWhile_no_slash: "slash \<notin> set xs \<Longrightarrow> dropWhile (\<lambda>c. c \<noteq> slash) xs = []"
  by (induction xs) auto

lemma ends_slash_snoc: "ends_slash q \<Longrightarrow> \<exists>ys. q = ys @ [slash]"
  by (cases q rule: rev_cases) (auto simp: ends_slash_def)

lemma basename_join: "slash \<notin> set b \<Longrightarrow> os_path_basename (os_path_join qd b) = b"
  by (auto simp: join_eq os_path_basename_def takeWhile_upto_slash takeWhile_no_slash
           dest!: ends_slash_snoc)

lemma not_ends_slash_app: "slash \<notin> set b \<Longrightarrow> b \<noteq> [] \<Longrightarrow> \<not> ends_slash (q @ b)"
  by (metis ends_slash_def last_appendR last_in_set)

lemma join_not_ends: "slash \<notin> set b \<Longrightarrow> b \<noteq> [] \<Longrightarrow> \<not> ends_slash (os_path_join qd b)"
  using not_ends_slash_app [of b "qd @ [slash]"] not_ends_slash_app [of b qd]
  by (simp add: join_eq)

lemma join_not_Nil: "b \<noteq> [] \<Longrightarrow> os_path_join qd b \<noteq> []"
  by (auto simp: os_path_join_def)

lemma rstrip_snoc_slash: "rstrip_slash (q @ [slash]) = rstrip_slash q"
  by (simp add: rstrip_slash_def)

lemma key_snoc_slash: "q \<noteq> [] \<Longrightarrow> key (q @ [slash]) = key q"
  by (auto simp: key_def rstrip_snoc_slash all_slashes_def)

lemma rstrip_idem: "rstrip_slash (rstrip_slash p) = rstrip_slash p"
  by (simp add: rstrip_slash_def)

lemma all_slashes_rstrip: "all_slashes (rstrip_slash p) \<longleftrightarrow> all_slashes p"
proof (cases "dropWhile (\<lambda>c. c = slash) (rev p)")
  case Nil
  then have "rstrip_slash p = []" by (simp add: rstrip_slash_def)
  moreover have "all_slashes p" using Nil by (simp add: all_slashes_def list_all_iff)
  ultimately show ?thesis by (simp add: all_slashes_def)
next
  case (Cons y ys)
  then have "y \<noteq> slash" using hd_dropWhile [of "\<lambda>c. c = slash" "rev p"] by auto
  moreover have "y \<in> set p" using Cons set_dropWhileD [of y "\<lambda>c. c = slash" "rev p"] by auto
  ultimately show ?thesis using Cons
    by (auto simp: rstrip_slash_def all_slashes_def list_all_iff)
qed

lemma key_rstrip: "\<not> all_slashes p \<Longrightarrow> key (rstrip_slash p) = key p"
  by (simp add: key_def rstrip_idem all_slashes_rstrip)

lemma dirname_app: "slash \<notin> set b \<Longrightarrow> ends_slash q \<Longrightarrow>
   os_path_dirname (q @ b) = (if all_slashes q then q else rstrip_slash q)"
proof -
  assume b: "slash \<notin> set b" and "ends_slash q"
  then obtain ys where q: "q = ys @ [slash]" using ends_slash_snoc by blast
  have "rev (dropWhile (\<lambda>c. c \<noteq> slash) (rev (q @ b))) = q"
    using b by (simp add: q dropWhile_upto_slash)
  then show ?thesis by (simp add: os_path_dirname_def Let_def q)
qed

lemma key_dirname_join:
  assumes "slash \<notin> set b" "b \<noteq> []" "qd \<noteq> []"
  shows "key (os_path_dirname (key (os_path_join qd b))) = key qd"
    and "os_path_dirname (key (os_path_join qd b)) \<noteq> []"
proof -
  define q where "q = (if ends_slash qd then qd else qd @ [slash])"
  have j: "os_path_join qd b = q @ b" using assms by (simp add: join_eq q_def)
  have e: "ends_slash q" by (simp add: ends_slash_def q_def)
  have q0: "q \<noteq> []" using assms(3) by (simp add: q_def)
  have k: "key (os_path_join qd b) = q @ b"
    using not_ends_slash_app [OF assms(1,2), of q] by (simp add: j key_plain)
  have d: "os_path_dirname (q @ b) = (if all_slashes q then q else rstrip_slash q)"
    using dirname_app [OF assms(1) e] .
  have kq: "key q = key qd" using assms(3) by (simp add: key_snoc_slash q_def)
  show "key (os_path_dirname (key (os_path_join qd b))) = key qd"
    using k d kq by (simp add: key_rstrip)
  show "os_path_dirname (key (os_path_join qd b)) \<noteq> []"
    using k d q0 by (auto simp: rstrip_Nil_iff)
qed

lemma key_app_le: "length (key q) \<le> length q"
  by (auto simp: key_def rstrip_slash_def all_slashes_def Suc_leI
      intro: le_trans [OF length_dropWhile_le])

lemma key_join_inj:
  assumes "slash \<notin> set b" "slash \<notin> set c" "b \<noteq> c"
  shows "key (os_path_join qd b) \<noteq> key (os_path_join qd c)"
proof -
  define q where "q = (if qd = [] \<or> ends_slash qd then qd else qd @ [slash])"
  have jb: "os_path_join qd b = q @ b" and jc: "os_path_join qd c = q @ c"
    using assms by (simp_all add: join_eq q_def)
  have kb: "x \<noteq> [] \<Longrightarrow> slash \<notin> set x \<Longrightarrow> key (q @ x) = q @ x" for x
    using not_ends_slash_app [of x q] by (simp add: key_plain)
  have "key (q @ b) \<noteq> key (q @ c)"
  proof (cases "b = []")
    case True
    then have "c \<noteq> []" using assms by simp
    then have "length (key (q @ c)) > length q" using kb assms by simp
    then show ?thesis using True key_app_le [of q] by auto
  next
    case False
    show ?thesis
    proof (cases "c = []")
      case True
      have "length (key (q @ b)) > length q" using kb False assms by simp
      then show ?thesis using True key_app_le [of q] by auto
    next
      case c: False
      show ?thesis using kb False c assms by simp
    qed
  qed
  then show ?thesis by (simp add: jb jc)
qed

lemma components_not_Nil: "components p \<noteq> []"
  by (induction p) (auto split: list.splits)

lemma components_snoc_slash: "components (q @ [slash]) = components q @ [[]]"
proof (induction q)
  case Nil
  then show ?case by simp
next
  case (Cons c q)
  then show ?case using components_not_Nil [of q] by (cases "components q") auto
qed

lemma normal_not_ends: "normal p \<Longrightarrow> p \<noteq> [] \<and> \<not> ends_slash p"
proof
  assume n: "normal p"
  show "p \<noteq> []" using n by (auto simp: normal_def)
  show "\<not> ends_slash p"
  proof
    assume "ends_slash p"
    then obtain q where q: "p = q @ [slash]" using ends_slash_snoc by blast
    obtain r ns where c: "components q = r # ns"
      using components_not_Nil [of q] by (cases "components q") auto
    show False using n unfolding q normal_def components_snoc_slash c by simp
  qed
qed

lemma normal_key: "normal p \<Longrightarrow> key p = p"
  using normal_not_ends [of p] by (simp add: key_plain)

subsection \<open>File operations\<close>

lemma lookup_Dir_iff: "lookup fs p = Some Dir \<longleftrightarrow> p \<noteq> [] \<and> fs (key p) = Some Dir"
  by (auto simp: lookup_def split: option.splits node.splits if_splits)

lemma lookup_File_iff:
  "lookup fs p = Some (File d) \<longleftrightarrow> p \<noteq> [] \<and> \<not> ends_slash p \<and> fs (key p) = Some (File d)"
  by (auto simp: lookup_def split: option.splits node.splits if_splits)


lemma lookup_upd_other: "key p \<noteq> k \<Longrightarrow> lookup (fs(k := v)) p = lookup fs p"
  by (simp add: lookup_def)

lemma read_file_Inr_iff:
  "read_file fs p = Inr d \<longleftrightarrow> parent_ok fs p \<and> lookup fs p = Some (File d)"
  by (auto simp: read_file_def split: option.splits node.splits)

lemma write_file_Inr_iff:
  "write_file fs p d = Inr fs' \<longleftrightarrow>
     p \<noteq> [] \<and> \<not> ends_slash p \<and> fs (key p) \<noteq> Some Dir \<and> parent_ok fs p \<and> fs' = fs(key p \<mapsto> File d)"
  by (auto simp: write_file_def)

lemma os_mkdir_Inr_iff:
  "os_mkdir fs p = Inr fs' \<longleftrightarrow>
     p \<noteq> [] \<and> fs (key p) = None \<and> parent_ok fs p \<and> fs' = fs(key p \<mapsto> Dir)"
  by (auto simp: os_mkdir_def)

lemma shutil_copy_Inr_iff:
  "shutil_copy fs src dst = Inr fs' \<longleftrightarrow>
     (\<exists>d. \<not> samefile fs src (if os_path_isdir fs dst then os_path_join dst (os_path_basename src) else dst)
        \<and> read_file fs src = Inr d
        \<and> write_file fs (if os_path_isdir fs dst then os_path_join dst (os_path_basename src) else dst) d = Inr fs')"
  by (auto simp: shutil_copy_def Let_def split: sum.splits)

text \<open>A file that can be read below a non-empty directory name shows that the name is a directory.\<close>

lemma read_below_is_dir:
  assumes "read_file fs (os_path_join qd (os_path_basename x)) = Inr d" and "qd \<noteq> []"
  shows "fs (key qd) = Some Dir"
proof -
  let ?b = "os_path_basename x"
  let ?ip = "os_path_join qd ?b"
  have po: "parent_ok fs ?ip" and lf: "lookup fs ?ip = Some (File d)"
    using assms(1) by (simp_all add: read_file_Inr_iff)
  have ne: "?b \<noteq> []"
  proof
    assume "?b = []"
    then have "ends_slash ?ip" using ends_slash_join_Nil [OF assms(2)] by simp
    then show False using lf by (simp add: lookup_File_iff)
  qed
  have "os_path_dirname (key ?ip) \<noteq> []"
    using key_dirname_join(2) [OF basename_no_slash ne assms(2)] .
  then have "lookup fs (os_path_dirname (key ?ip)) = Some Dir"
    using po by (simp add: parent_ok_def Let_def)
  then have "fs (key (os_path_dirname (key ?ip))) = Some Dir"
    by (simp add: lookup_Dir_iff)
  then show ?thesis
    using key_dirname_join(1) [OF basename_no_slash ne assms(2)] by simp
qed

lemma staged_core:
  fixes qd inp sg :: path
  defines "ip \<equiv> os_path_join qd (os_path_basename inp)"
      and "sp \<equiv> os_path_join qd (os_path_basename sg)"
  assumes c1: "shutil_copy fsm inp qd = Inr fs1"
      and c2: "shutil_copy fs1 sg qd = Inr fs2"
      and r: "read_file fs2 ip = Inr d"
      and qd: "qd \<noteq> []"
  shows "\<exists>din s. fsm (key qd) = Some Dir
           \<and> lookup fsm inp = Some (File din) \<and> lookup fsm sg = Some (File s)
           \<and> fs2 = fsm(key ip \<mapsto> File din, key sp \<mapsto> File s)
           \<and> d = (if key ip = key sp then s else din)
           \<and> key ip \<noteq> key qd \<and> key sp \<noteq> key qd
           \<and> ip \<noteq> [] \<and> sp \<noteq> [] \<and> \<not> ends_slash ip \<and> \<not> ends_slash sp
           \<and> key inp \<noteq> key ip \<and> key sg \<noteq> key sp
           \<and> key sg \<noteq> key ip \<and> key inp \<noteq> key sp"
proof -
  have d2: "fs2 (key qd) = Some Dir"
    using read_below_is_dir [OF r [unfolded ip_def] qd] .
  have dirm: "os_path_isdir fsm qd"
  proof (rule ccontr)
    assume n: "\<not> os_path_isdir fsm qd"
    then obtain din where "fs1 = fsm(key qd \<mapsto> File din)"
      using c1 by (auto simp: shutil_copy_Inr_iff write_file_Inr_iff)
    then have n1: "\<not> os_path_isdir fs1 qd" by (simp add: os_path_isdir_def lookup_Dir_iff)
    then obtain s where "fs2 = fs1(key qd \<mapsto> File s)"
      using c2 by (auto simp: shutil_copy_Inr_iff write_file_Inr_iff)
    then show False using d2 by simp
  qed
  then have km: "fsm (key qd) = Some Dir" by (simp add: os_path_isdir_def lookup_Dir_iff)
  from c1 dirm obtain din where
      sf1: "\<not> samefile fsm inp ip" and r1: "read_file fsm inp = Inr din"
      and w1: "write_file fsm ip din = Inr fs1"
    by (auto simp: shutil_copy_Inr_iff ip_def)
  have l1: "lookup fsm inp = Some (File din)" using r1 by (simp add: read_file_Inr_iff)
  have ip: "ip \<noteq> []" "\<not> ends_slash ip" "fsm (key ip) \<noteq> Some Dir"
      and fs1: "fs1 = fsm(key ip \<mapsto> File din)"
    using w1 by (simp_all add: write_file_Inr_iff)
  have kip: "key ip \<noteq> key qd" using ip(3) km by auto
  have dir1: "os_path_isdir fs1 qd"
    using km kip qd by (simp add: os_path_isdir_def lookup_Dir_iff fs1)
  from c2 dir1 obtain s where
      sf2: "\<not> samefile fs1 sg sp" and r2: "read_file fs1 sg = Inr s"
      and w2: "write_file fs1 sp s = Inr fs2"
    by (auto simp: shutil_copy_Inr_iff sp_def)
  have l2: "lookup fs1 sg = Some (File s)" using r2 by (simp add: read_file_Inr_iff)
  have sp: "sp \<noteq> []" "\<not> ends_slash sp" "fs1 (key sp) \<noteq> Some Dir"
      and fs2: "fs2 = fs1(key sp \<mapsto> File s)"
    using w2 by (simp_all add: write_file_Inr_iff)
  have ksp: "key sp \<noteq> key qd" using sp(3) km kip by (auto simp: fs1)
  have ki: "key inp \<noteq> key ip"
  proof
    assume e: "key inp = key ip"
    then have "lookup fsm ip = Some (File din)"
      using l1 ip by (simp add: lookup_File_iff)
    then show False using sf1 l1 e by (simp add: samefile_def)
  qed
  have ks: "key sg \<noteq> key sp"
  proof
    assume e: "key sg = key sp"
    then have "lookup fs1 sp = Some (File s)"
      using l2 sp by (simp add: lookup_File_iff)
    then show False using sf2 l2 e by (simp add: samefile_def)
  qed
  have ksg: "key sg \<noteq> key ip"
  proof
    assume e: "key sg = key ip"
    have "sg \<noteq> []" "\<not> ends_slash sg" using l2 by (simp_all add: lookup_File_iff)
    then have "sg = ip" using e ip by (simp add: key_plain)
    then have "os_path_basename sg = os_path_basename inp"
      by (simp add: ip_def basename_join basename_no_slash)
    then have "sp = ip" by (simp add: sp_def ip_def)
    then show False using ks e by simp
  qed
  have kis: "key inp \<noteq> key sp"
  proof
    assume e: "key inp = key sp"
    have "inp \<noteq> []" "\<not> ends_slash inp" using l1 by (simp_all add: lookup_File_iff)
    then have "inp = sp" using e sp by (simp add: key_plain)
    then have "os_path_basename inp = os_path_basename sg"
      by (simp add: sp_def basename_join basename_no_slash)
    then have "sp = ip" by (simp add: sp_def ip_def)
    then show False using ki e by simp
  qed
  have l2m: "lookup fsm sg = Some (File s)"
    using l2 ksg by (simp add: fs1 lookup_upd_other)
  have "lookup fs2 ip = Some (File d)" using r by (simp add: read_file_Inr_iff)
  then have dd: "d = (if key ip = key sp then s else din)"
    by (auto simp: lookup_File_iff fs2 fs1 split: if_splits)
  show ?thesis
    using km l1 l2m fs1 fs2 dd kip ksp ip sp ki ks ksg kis by auto
qed

subsection \<open>Logging and external calls\<close>

lemma emit_frame [simp]:
  "files (emit l m h w) = files w" "calls (emit l m h w) = calls w"
  "logger_level (emit l m h w) = logger_level w" "logger_handlers (emit l m h w) = logger_handlers w"
  "records (emit l m h w) = records w"
  by (cases h; simp)+

lemma fold_emit_frame [simp]:
  "files (fold (emit l m) hs w) = files w" "calls (fold (emit l m) hs w) = calls w"
  "logger_level (fold (emit l m) hs w) = logger_level w"
  "logger_handlers (fold (emit l m) hs w) = logger_handlers w"
  "records (fold (emit l m) hs w) = records w"
  by (induction hs arbitrary: w; simp)+

lemma logger_log_frame [simp]:
  "files (logger_log l m w) = files w" "calls (logger_log l m w) = calls w"
  "logger_level (logger_log l m w) = logger_level w"
  "logger_handlers (logger_log l m w) = logger_handlers w"
  by (simp_all add: logger_log_def)

lemma logger_log_records:
  "records (logger_log l m w) = (if levelno l < logger_level w then records w else records w @ [(l, m)])"
  by (simp add: logger_log_def)

lemma log_init_frame:
  assumes "log_init env dst v w = (r, w1)"
  shows "files w1 = files w" "calls w1 = calls w" "records w1 = records w"
  using assms by (auto simp: log_init_def Let_def split: if_splits sum.splits)

lemma log_init_level:
  assumes "log_init env dst v w = (Inr u, w1)"
  shows "logger_level w1 = levelno (if v then DEBUG else INFO)"
  using assms by (auto simp: log_init_def Let_def split: if_splits sum.splits)

lemma fs_op_eq:
  "fs_op c f w = (r, w1) \<longleftrightarrow>
     (case f (files w) of
        Inl e \<Rightarrow> r = Inl e \<and> w1 = w\<lparr>calls := calls w @ [c]\<rparr>
      | Inr fs' \<Rightarrow> r = Inr () \<and> w1 = w\<lparr>files := fs', calls := calls w @ [c]\<rparr>)"
  by (auto simp: fs_op_def record_call_def split: sum.splits)

lemma do_GPG_eq:
  "do_GPG env h w = (r, w1) \<longleftrightarrow>
     r = gnupg_GPG env h \<and>
     w1 = w\<lparr>calls := calls w @ [GPGInit h (case r of Inl e \<Rightarrow> Some e | Inr g \<Rightarrow> None)]\<rparr>"
  by (auto simp: do_GPG_def record_call_def split: sum.splits)

lemma load_signed_eq:
  "load_signed env g ip sp w = (r, w1) \<longleftrightarrow>
     (case read_file (files w) ip of
        Inl e \<Rightarrow> r = Inl e \<and> w1 = w\<lparr>calls := calls w @ [Open ip]\<rparr>
      | Inr d \<Rightarrow> r = verify_file env g d sp (files w)
                \<and> w1 = w\<lparr>calls := calls w @ [Open ip, VerifyFile d sp r]\<rparr>)"
  by (auto simp: load_signed_def do_open_def do_verify_file_def record_call_def Let_def
           split: sum.splits)

lemma move_out_eq:
  "move_out ip sp out w = (r, w1) \<longleftrightarrow>
     (case shutil_move (files w) ip out of
        Inl e \<Rightarrow> r = Inl e \<and> w1 = w\<lparr>calls := calls w @ [Move ip out]\<rparr>
      | Inr fs1 \<Rightarrow>
          (case os_remove fs1 sp of
             Inl e \<Rightarrow> r = Inl e \<and> w1 = w\<lparr>files := fs1, calls := calls w @ [Move ip out, Remove sp]\<rparr>
           | Inr fs2 \<Rightarrow> r = Inr () \<and> w1 = w\<lparr>files := fs2, calls := calls w @ [Move ip out, Remove sp]\<rparr>))"
  by (auto simp: move_out_def do_move_def do_remove_def fs_op_def record_call_def
           split: sum.splits)

lemma quarantine_Inr:
  assumes "quarantine env a w = (Inr (ip, sp), w1)"
  shows "ip = staged_input env a" "sp = staged_sig env a"
        "logger_level w1 = logger_level w"
    and "\<exists>fsm fs1.
           ((os_path_exists (files w) (quarantine_dir env a) \<and> fsm = files w) \<or>
            (\<not> os_path_exists (files w) (quarantine_dir env a)
               \<and> os_mkdir (files w) (quarantine_dir env a) = Inr fsm))
         \<and> shutil_copy fsm (input_path a) (quarantine_dir env a) = Inr fs1
         \<and> shutil_copy fs1 (sig_path a) (quarantine_dir env a) = Inr (files w1)
         \<and> calls w1 = calls w @ [Exists (quarantine_dir env a)]
              @ (if os_path_exists (files w) (quarantine_dir env a) then []
                 else [Mkdir (quarantine_dir env a)])
              @ [Copy (input_path a) (quarantine_dir env a),
                 Copy (sig_path a) (quarantine_dir env a)]"
  using assms
  unfolding quarantine_def Let_def do_exists_def do_mkdir_def do_copy_def
    staged_input_def staged_sig_def quarantine_dir_def
  by (auto simp: fs_op_eq record_call_def split: prod.splits sum.splits if_splits)


lemma quarantine_Inl:
  assumes "quarantine env a w = (Inl e, w1)"
  shows "\<exists>cs. calls w1 = calls w @ Exists (quarantine_dir env a) # cs
           \<and> set cs \<subseteq> {Mkdir (quarantine_dir env a),
                          Copy (input_path a) (quarantine_dir env a),
                          Copy (sig_path a) (quarantine_dir env a)}"
  using assms
  unfolding quarantine_def Let_def do_exists_def do_mkdir_def do_copy_def quarantine_dir_def
  by (auto simp: fs_op_eq record_call_def split: prod.splits sum.splits if_splits)

lemma staged_files:
  assumes q: "quarantine env a w = (Inr (ip, sp), w1)"
      and r: "read_file (files w1) ip = Inr d"
  shows "\<exists>din s. lookup (files w) (input_path a) = Some (File din)
           \<and> lookup (files w) (sig_path a) = Some (File s)
           \<and> files w1 = (files w)(key (quarantine_dir env a) \<mapsto> Dir,
                                    key ip \<mapsto> File din, key sp \<mapsto> File s)
           \<and> d = (if key ip = key sp then s else din)
           \<and> key ip \<noteq> key (quarantine_dir env a) \<and> key sp \<noteq> key (quarantine_dir env a)
           \<and> ip \<noteq> [] \<and> sp \<noteq> [] \<and> \<not> ends_slash ip \<and> \<not> ends_slash sp
           \<and> key (input_path a) \<noteq> key ip \<and> key (sig_path a) \<noteq> key sp
           \<and> key (sig_path a) \<noteq> key ip \<and> key (input_path a) \<noteq> key sp"
proof -
  let ?qd = "quarantine_dir env a"
  note Q = quarantine_Inr [OF q]
  from Q(4) obtain fsm fs1 where
      m: "(os_path_exists (files w) ?qd \<and> fsm = files w) \<or>
          (\<not> os_path_exists (files w) ?qd \<and> os_mkdir (files w) ?qd = Inr fsm)"
      and c1: "shutil_copy fsm (input_path a) ?qd = Inr fs1"
      and c2: "shutil_copy fs1 (sig_path a) ?qd = Inr (files w1)"
    by blast
  have qd: "?qd \<noteq> []"
    using m by (auto simp: os_path_exists_def lookup_def os_mkdir_Inr_iff)
  have r': "read_file (files w1) (os_path_join ?qd (os_path_basename (input_path a))) = Inr d"
    using r Q(1) by (simp add: staged_input_def)
  from staged_core [OF c1 c2 r' qd] obtain din s where
      km: "fsm (key ?qd) = Some Dir"
      and l1: "lookup fsm (input_path a) = Some (File din)"
      and l2: "lookup fsm (sig_path a) = Some (File s)"
      and f2: "files w1 = fsm(key ip \<mapsto> File din, key sp \<mapsto> File s)"
      and rest: "d = (if key ip = key sp then s else din)"
        "key ip \<noteq> key ?qd" "key sp \<noteq> key ?qd" "ip \<noteq> []" "sp \<noteq> []"
        "\<not> ends_slash ip" "\<not> ends_slash sp"
        "key (input_path a) \<noteq> key ip" "key (sig_path a) \<noteq> key sp"
        "key (sig_path a) \<noteq> key ip" "key (input_path a) \<noteq> key sp"
    unfolding Q(1) Q(2) staged_input_def staged_sig_def by blast
  have fm: "fsm = (files w)(key ?qd \<mapsto> Dir)"
    using m km by (auto simp: os_mkdir_Inr_iff)
  have o1: "lookup (files w) (input_path a) = Some (File din)"
    using l1 unfolding fm by (auto simp: lookup_File_iff split: if_splits)
  have o2: "lookup (files w) (sig_path a) = Some (File s)"
    using l2 unfolding fm by (auto simp: lookup_File_iff split: if_splits)
  show ?thesis
    using o1 o2 f2 rest unfolding fm by blast
qed

lemma main_verify_calls:
  assumes "main_verify a ip sp r w = (st, w')"
  shows "files w' = files w \<and> calls w' = calls w
         \<or> (\<exists>cs. calls w' = calls w @ Move ip (output_path a) # cs \<and> set cs \<subseteq> {Remove sp})"
  using assms unfolding main_verify_def Let_def sys_exit_def
  by (auto simp: move_out_eq split: if_splits prod.splits sum.splits)

subsection \<open>Runs that reach the verification\<close>

lemma reach_gate:
  assumes p: "parse_args argv = Inr a"
      and run: "script env argv fs0 = (st, w')"
      and v: "VerifyFile d sp r \<in> set (calls w')"
  shows "\<exists>g w8 din s.
      gnupg_GPG env (gpg_home a) = Inr g
    \<and> sp = staged_sig env a
    \<and> lookup fs0 (input_path a) = Some (File din)
    \<and> lookup fs0 (sig_path a) = Some (File s)
    \<and> files w8 = fs0(key (quarantine_dir env a) \<mapsto> Dir,
                      key (staged_input env a) \<mapsto> File din, key (staged_sig env a) \<mapsto> File s)
    \<and> d = (if key (staged_input env a) = key (staged_sig env a) then s else din)
    \<and> key (staged_input env a) \<noteq> key (quarantine_dir env a)
    \<and> key (staged_sig env a) \<noteq> key (quarantine_dir env a)
    \<and> staged_input env a \<noteq> [] \<and> staged_sig env a \<noteq> []
    \<and> \<not> ends_slash (staged_input env a) \<and> \<not> ends_slash (staged_sig env a)
    \<and> key (input_path a) \<noteq> key (staged_input env a)
    \<and> key (sig_path a) \<noteq> key (staged_sig env a)
    \<and> key (sig_path a) \<noteq> key (staged_input env a)
    \<and> key (input_path a) \<noteq> key (staged_sig env a)
    \<and> files w8 = quarantined env a fs0
    \<and> calls w8 = [GPGInit (gpg_home a) None, Exists (quarantine_dir env a)]
          @ (if os_path_exists fs0 (quarantine_dir env a) then [] else [Mkdir (quarantine_dir env a)])
          @ [Copy (input_path a) (quarantine_dir env a), Copy (sig_path a) (quarantine_dir env a),
             Open (staged_input env a), VerifyFile d sp r]
    \<and> r = verify_file env g d sp (files w8)
    \<and> logger_level w8 = levelno (if log_verbose a then DEBUG else INFO)
    \<and> (\<forall>e. r = Inl e \<longrightarrow> st = 1 \<and> files w' = files w8 \<and> calls w' = calls w8)
    \<and> (\<forall>x. r = Inr x \<longrightarrow> (st, w') = main_verify a (staged_input env a) sp x w8)"
proof -
  let ?w0 = "init_world fs0"
  let ?qd = "quarantine_dir env a"
  let ?ip = "staged_input env a"
  have c0: "calls ?w0 = []" "files ?w0 = fs0" by (simp_all add: init_world_def)
  have ie: "import_error env = None"
    using run v by (cases "import_error env") (auto simp: script_def sys_exit_def init_world_def)
  then have m: "main env argv ?w0 = (st, w')" using run by (simp add: script_def)
  obtain r1 w1 where li: "log_init env (log_dest a) (log_verbose a) ?w0 = (r1, w1)" by force
  note F1 = log_init_frame [OF li]
  have r1: "r1 = Inr ()"
  proof (cases r1)
    case (Inl e)
    then show ?thesis using m v p li F1 c0 by (auto simp: main_def uncaught_def)
  qed simp
  note L1 = log_init_level [OF li [unfolded r1]]
  obtain r4 w4 where g: \<open>do_GPG env (gpg_home a)
      (logger_debug (fmt ''Creating GnuPG instance with home "%s"'' [gpg_home a])
        (logger_debug (fmt ''Application started by user ID "%i" with arguments: "%s"''
                    [str_nat (os_getuid env), str_args env a]) w1)) = (r4, w4)\<close> by force
  have w4: "files w4 = fs0" "calls w4 = [GPGInit (gpg_home a) (case r4 of Inl e \<Rightarrow> Some e | Inr g \<Rightarrow> None)]"
    "logger_level w4 = levelno (if log_verbose a then DEBUG else INFO)" "r4 = gnupg_GPG env (gpg_home a)"
    using g F1 c0 L1 by (auto simp: do_GPG_eq)
  obtain gh where r4: "r4 = Inr gh"
  proof (cases r4)
    case (Inl e)
    then show ?thesis using m v p li r1 g w4 by (auto simp: main_def sys_exit_def Let_def)
  qed simp
  have c4: "calls w4 = [GPGInit (gpg_home a) None]" using w4(2) r4 by simp
  have gp: "gnupg_GPG env (gpg_home a) = Inr gh" using w4(4) r4 by simp
  obtain r6 w6 where q: \<open>quarantine env a
      (logger_debug (fmt ''Setting up quarantine directory in "%s"'' [quar_dir a]) w4) = (r6, w6)\<close>
    by force
  have m6: \<open>(st, w') = (case (r6, w6) of
        (Inl e, w6) \<Rightarrow>
          sys_exit 1
            (logger_error
               (fmt ''Failed to quaratine input file "%s" in "%s": "%s"''
                  [input_path a, quar_dir a, str_exn e]) w6)
      | (Inr (input_path', sig_path'), w6) \<Rightarrow>
     (let w7 = logger_info (fmt ''Loading signed input file from "%s"'' [input_path']) w6 in
      case load_signed env gh input_path' sig_path' w7 of
        (Inl e, w8) \<Rightarrow>
          sys_exit 1 (logger_error (fmt ''Failed to open input file: "%s"'' [str_exn e]) w8)
      | (Inr input_data, w8) \<Rightarrow> main_verify a input_path' sig_path' input_data w8))\<close>
    using m p li r1 g r4 q by (simp add: main_def Let_def)
  obtain ip' sp' where r6: "r6 = Inr (ip', sp')"
  proof (cases r6)
    case (Inl e)
    then show ?thesis using m6 v quarantine_Inl [OF q [unfolded Inl]] c4
      by (auto simp: sys_exit_def)
  next
    case (Inr x)
    then show ?thesis using that by (cases x) simp
  qed
  note Q = quarantine_Inr [OF q [unfolded r6]]
  obtain r8 w8 where l: \<open>load_signed env gh ip' sp'
      (logger_info (fmt ''Loading signed input file from "%s"'' [ip']) w6) = (r8, w8)\<close> by force
  have m8: \<open>(st, w') = (case r8 of
        Inl e \<Rightarrow> sys_exit 1 (logger_error (fmt ''Failed to open input file: "%s"'' [str_exn e]) w8)
      | Inr input_data \<Rightarrow> main_verify a ip' sp' input_data w8)\<close>
    using m6 r6 l by (simp add: Let_def split: sum.splits)
  from Q(4) have c6: "calls w6 = [GPGInit (gpg_home a) None, Exists ?qd]
          @ (if os_path_exists fs0 ?qd then [] else [Mkdir ?qd])
          @ [Copy (input_path a) ?qd, Copy (sig_path a) ?qd]"
    using w4(1) c4 by auto
  have nv6: "VerifyFile d sp r \<notin> set (calls w6)" by (simp add: c6)
  obtain dd where rd: "read_file (files w6) ip' = Inr dd"
  proof (cases "read_file (files w6) ip'")
    case (Inl e)
    then show ?thesis using l m8 v nv6 by (auto simp: load_signed_eq sys_exit_def)
  qed simp
  have w8: "r8 = verify_file env gh dd sp' (files w6)"
      \<open>w8 = (logger_info (fmt ''Loading signed input file from "%s"'' [ip']) w6)
              \<lparr>calls := calls w6 @ [Open ip', VerifyFile dd sp' r8]\<rparr>\<close>
    using l rd by (simp_all add: load_signed_eq)
  have f8: "files w8 = files w6" "logger_level w8 = levelno (if log_verbose a then DEBUG else INFO)"
    "calls w8 = calls w6 @ [Open ip', VerifyFile dd sp' r8]"
    using w8 Q(3) w4 by simp_all
  have after: "files w' = files w8 \<and> calls w' = calls w8
         \<or> (\<exists>cs. calls w' = calls w8 @ Move ip' (output_path a) # cs \<and> set cs \<subseteq> {Remove sp'})"
  proof (cases r8)
    case (Inl e)
    then show ?thesis using m8 by (auto simp: sys_exit_def)
  next
    case (Inr x)
    then show ?thesis using m8 main_verify_calls [of a ip' sp' x w8 st w'] by simp
  qed
  have same: "dd = d" "sp' = sp" "r8 = r"
    using after v nv6 f8 by auto
  have S: \<open>\<exists>din s. lookup (files (logger_debug (fmt ''Setting up quarantine directory in "%s"'' [quar_dir a]) w4)) (input_path a) = Some (File din)
           \<and> lookup (files (logger_debug (fmt ''Setting up quarantine directory in "%s"'' [quar_dir a]) w4)) (sig_path a) = Some (File s)
           \<and> files w6 = (files (logger_debug (fmt ''Setting up quarantine directory in "%s"'' [quar_dir a]) w4))(key ?qd \<mapsto> Dir,
                                    key ip' \<mapsto> File din, key sp' \<mapsto> File s)
           \<and> dd = (if key ip' = key sp' then s else din)
           \<and> key ip' \<noteq> key ?qd \<and> key sp' \<noteq> key ?qd
           \<and> ip' \<noteq> [] \<and> sp' \<noteq> [] \<and> \<not> ends_slash ip' \<and> \<not> ends_slash sp'
           \<and> key (input_path a) \<noteq> key ip' \<and> key (sig_path a) \<noteq> key sp'
           \<and> key (sig_path a) \<noteq> key ip' \<and> key (input_path a) \<noteq> key sp'\<close>
    using staged_files [OF q [unfolded r6] rd] .
  then obtain din s where
      "lookup fs0 (input_path a) = Some (File din)"
      "lookup fs0 (sig_path a) = Some (File s)"
      "files w8 = fs0(key ?qd \<mapsto> Dir, key ?ip \<mapsto> File din, key (staged_sig env a) \<mapsto> File s)"
      "d = (if key ?ip = key (staged_sig env a) then s else din)"
      "key ?ip \<noteq> key ?qd" "key (staged_sig env a) \<noteq> key ?qd"
      "?ip \<noteq> []" "staged_sig env a \<noteq> []" "\<not> ends_slash ?ip" "\<not> ends_slash (staged_sig env a)"
      "key (input_path a) \<noteq> key ?ip" "key (sig_path a) \<noteq> key (staged_sig env a)"
      "key (sig_path a) \<noteq> key ?ip" "key (input_path a) \<noteq> key (staged_sig env a)"
      "files w8 = quarantined env a fs0"
    using w4(1) f8(1) Q(1,2) same by (auto simp: quarantined_def)
  moreover note gp
  moreover have "sp = staged_sig env a" using same Q(2) by simp
  moreover have "calls w8 = [GPGInit (gpg_home a) None, Exists ?qd]
          @ (if os_path_exists fs0 ?qd then [] else [Mkdir ?qd])
          @ [Copy (input_path a) ?qd, Copy (sig_path a) ?qd, Open ?ip, VerifyFile d sp r]"
    using f8(3) c6 same Q(1) by simp
  moreover have "r = verify_file env gh d sp (files w8)" using w8(1) same f8(1) by simp
  moreover have "\<forall>e. r = Inl e \<longrightarrow> st = 1 \<and> files w' = files w8 \<and> calls w' = calls w8"
    using m8 same by (auto simp: sys_exit_def)
  moreover have "\<forall>x. r = Inr x \<longrightarrow> (st, w') = main_verify a ?ip sp x w8"
    using m8 same Q(1) by auto
  ultimately show ?thesis using f8(2) by blast
qed

subsection \<open>The trust gate\<close>

lemma main_verify_reject:
  assumes "main_verify a ip sp r w = (st, w')"
      and "\<not> valid r \<or> trust_level r < required_trust_level a"
  shows "st = (if valid r then 2 else 1)" "files w' = files w" "calls w' = calls w"
  using assms unfolding main_verify_def Let_def sys_exit_def
  by (auto split: if_splits)

lemma main_verify_status_2:
  assumes "main_verify a ip sp r w = (2, w')"
  shows "valid r \<and> trust_level r < required_trust_level a"
  using assms unfolding main_verify_def Let_def sys_exit_def
  by (auto split: if_splits prod.splits sum.splits)


lemma quarantined_frame:
  assumes "key p \<noteq> key (quarantine_dir env a)" "key p \<noteq> key (staged_input env a)"
      and "key p \<noteq> key (staged_sig env a)"
  shows "lookup (quarantined env a fs0) p = lookup fs0 p"
  using assms
  by (auto simp: quarantined_def lookup_upd_other split: option.splits node.splits)

section \<open>Runs of the examples\<close>

text \<open>
  Each example is run once; what the claims below need of its result is read off here.
\<close>

lemma demo_parse: "parse_args demo_argv = Inr demo_args"
  by code_simp

lemma bad_sig_parse: "parse_args bad_sig_argv = Inr (demo_args\<lparr>sig_path := ''/in/bad.sig''\<rparr>)"
  by code_simp

lemma same_name_parse: "parse_args same_name_argv = Inr (demo_args\<lparr>sig_path := ''/sigs/a.bin''\<rparr>)"
  by code_simp

lemma nowhere_parse:
  "parse_args nowhere_argv = Inr (demo_args\<lparr>output_path := ''/nowhere/output.bin''\<rparr>)"
  by code_simp

lemma run_rejected:
  \<open>case script (toy_env 2) demo_argv demo_fs of (st, w) \<Rightarrow>
     st = 2
   \<and> calls w =
       [GPGInit ''~/.gnupg'' None, Exists ''/home/u/pgp-cp_quar'', Mkdir ''/home/u/pgp-cp_quar'',
        Copy ''/in/a.bin'' ''/home/u/pgp-cp_quar'', Copy ''/in/a.bin.sig'' ''/home/u/pgp-cp_quar'',
        Open ''/home/u/pgp-cp_quar/a.bin'',
        VerifyFile ''data'' ''/home/u/pgp-cp_quar/a.bin.sig'' (Inr (demo_report True 2))]
   \<and> records w =
       [(INFO, ''Creating quarantine directory "~/pgp-cp_quar"''),
        (INFO, ''Copying input file "/in/a.bin" and signature "/in/a.bin.sig" to quarantine "~/pgp-cp_quar"''),
        (INFO, ''Loading signed input file from "/home/u/pgp-cp_quar/a.bin"''),
        (INFO, ''Verifying signature of input file against trust database''),
        (INFO, ''Sinature was signed at "2015-03-01" by "Alice" with key ID "0xA1"''),
        (ERROR, ''Trust level "2" of signature did not meet specified requirements'')]
   \<and> lookup (files w) ''/out/output.bin'' = None
   \<and> lookup (files w) ''/home/u/pgp-cp_quar/a.bin'' = Some (File ''data'')
   \<and> lookup (files w) ''/home/u/pgp-cp_quar/a.bin.sig'' = Some (File ''signed:data'')\<close>
  by code_simp

lemma run_invalid:
  \<open>case script (toy_env 3) bad_sig_argv demo_fs of (st, w) \<Rightarrow>
     st = 1
   \<and> calls w =
       [GPGInit ''~/.gnupg'' None, Exists ''/home/u/pgp-cp_quar'', Mkdir ''/home/u/pgp-cp_quar'',
        Copy ''/in/a.bin'' ''/home/u/pgp-cp_quar'', Copy ''/in/bad.sig'' ''/home/u/pgp-cp_quar'',
        Open ''/home/u/pgp-cp_quar/a.bin'',
        VerifyFile ''data'' ''/home/u/pgp-cp_quar/bad.sig'' (Inr (demo_report False 3))]
   \<and> records w =
       [(INFO, ''Creating quarantine directory "~/pgp-cp_quar"''),
        (INFO, ''Copying input file "/in/a.bin" and signature "/in/bad.sig" to quarantine "~/pgp-cp_quar"''),
        (INFO, ''Loading signed input file from "/home/u/pgp-cp_quar/a.bin"''),
        (INFO, ''Verifying signature of input file against trust database''),
        (ERROR, ''Signature of file "/home/u/pgp-cp_quar/a.bin" is not valid'')]
   \<and> lookup (files w) ''/out/output.bin'' = None\<close>
  by code_simp

lemma run_accepted:
  \<open>case script (toy_env 3) demo_argv demo_fs of (st, w) \<Rightarrow>
     st = 0
   \<and> calls w =
       [GPGInit ''~/.gnupg'' None, Exists ''/home/u/pgp-cp_quar'', Mkdir ''/home/u/pgp-cp_quar'',
        Copy ''/in/a.bin'' ''/home/u/pgp-cp_quar'', Copy ''/in/a.bin.sig'' ''/home/u/pgp-cp_quar'',
        Open ''/home/u/pgp-cp_quar/a.bin'',
        VerifyFile ''data'' ''/home/u/pgp-cp_quar/a.bin.sig'' (Inr (demo_report True 3)),
        Move ''/home/u/pgp-cp_quar/a.bin'' ''/out/output.bin'',
        Remove ''/home/u/pgp-cp_quar/a.bin.sig'']
   \<and> lookup (files w) ''/out/output.bin'' = Some (File ''data'')
   \<and> lookup (files w) ''/home/u/pgp-cp_quar/a.bin.sig'' = None\<close>
  by code_simp

lemma run_same_name:
  \<open>case script (toy_env 3) same_name_argv demo_fs of (st, w) \<Rightarrow>
     st = 1
   \<and> calls w =
       [GPGInit ''~/.gnupg'' None, Exists ''/home/u/pgp-cp_quar'', Mkdir ''/home/u/pgp-cp_quar'',
        Copy ''/in/a.bin'' ''/home/u/pgp-cp_quar'', Copy ''/sigs/a.bin'' ''/home/u/pgp-cp_quar'',
        Open ''/home/u/pgp-cp_quar/a.bin'',
        VerifyFile ''signed:data'' ''/home/u/pgp-cp_quar/a.bin'' (Inr (demo_report False 3))]
   \<and> lookup (files w) ''/home/u/pgp-cp_quar/a.bin'' = Some (File ''signed:data'')\<close>
  by code_simp


lemma run_broken:
  \<open>case script broken_env demo_argv demo_fs of (st, w) \<Rightarrow>
     st = 1 \<and> calls w = [GPGInit ''~/.gnupg'' (Some (GnuPGError ''no such home''))]\<close>
  by code_simp

lemma run_syslog:
  \<open>case script (toy_env 3) (demo_argv @ [OptLogDest ''syslog'']) demo_fs of (st, w) \<Rightarrow>
     st = 1 \<and> calls w = [] \<and> logger_handlers w = []
   \<and> stderr w = [''Traceback (most recent call last): module logging has no attribute handlers'']\<close>
  by code_simp

lemma demo_calls_rejected:
  "calls (snd (script (toy_env 2) demo_argv demo_fs)) =
     [GPGInit ''~/.gnupg'' None, Exists ''/home/u/pgp-cp_quar'', Mkdir ''/home/u/pgp-cp_quar'',
      Copy ''/in/a.bin'' ''/home/u/pgp-cp_quar'', Copy ''/in/a.bin.sig'' ''/home/u/pgp-cp_quar'',
      Open ''/home/u/pgp-cp_quar/a.bin'',
      VerifyFile ''data'' ''/home/u/pgp-cp_quar/a.bin.sig'' (Inr (demo_report True 2))]"
  using run_rejected by (simp add: split_beta)

lemma bad_sig_calls:
  "calls (snd (script (toy_env 3) bad_sig_argv demo_fs)) =
     [GPGInit ''~/.gnupg'' None, Exists ''/home/u/pgp-cp_quar'', Mkdir ''/home/u/pgp-cp_quar'',
      Copy ''/in/a.bin'' ''/home/u/pgp-cp_quar'', Copy ''/in/bad.sig'' ''/home/u/pgp-cp_quar'',
      Open ''/home/u/pgp-cp_quar/a.bin'',
      VerifyFile ''data'' ''/home/u/pgp-cp_quar/bad.sig'' (Inr (demo_report False 3))]"
  using run_invalid by (simp add: split_beta)

lemma demo_output_absent: "lookup demo_fs ''/out/output.bin'' = None"
  by code_simp

lemma staged_output_parse:
  "parse_args staged_output_argv = Inr (demo_args\<lparr>output_path := ''/home/u/pgp-cp_quar/a.bin''\<rparr>)"
  by code_simp

lemma bad_sig_staged_output_parse:
  "parse_args bad_sig_staged_output_argv
     = Inr (demo_args\<lparr>sig_path := ''/in/bad.sig'', output_path := ''/home/u/pgp-cp_quar/a.bin''\<rparr>)"
  by code_simp

lemma run_rejected_staged_output:
  \<open>case script (toy_env 2) staged_output_argv demo_fs of (st, w) \<Rightarrow>
     st = 2
   \<and> calls w =
       [GPGInit ''~/.gnupg'' None, Exists ''/home/u/pgp-cp_quar'', Mkdir ''/home/u/pgp-cp_quar'',
        Copy ''/in/a.bin'' ''/home/u/pgp-cp_quar'', Copy ''/in/a.bin.sig'' ''/home/u/pgp-cp_quar'',
        Open ''/home/u/pgp-cp_quar/a.bin'',
        VerifyFile ''data'' ''/home/u/pgp-cp_quar/a.bin.sig'' (Inr (demo_report True 2))]
   \<and> lookup (files w) ''/home/u/pgp-cp_quar/a.bin'' = Some (File ''data'')\<close>
  by code_simp

lemma run_invalid_staged_output:
  \<open>case script (toy_env 3) bad_sig_staged_output_argv demo_fs of (st, w) \<Rightarrow>
     st = 1
   \<and> calls w =
       [GPGInit ''~/.gnupg'' None, Exists ''/home/u/pgp-cp_quar'', Mkdir ''/home/u/pgp-cp_quar'',
        Copy ''/in/a.bin'' ''/home/u/pgp-cp_quar'', Copy ''/in/bad.sig'' ''/home/u/pgp-cp_quar'',
        Open ''/home/u/pgp-cp_quar/a.bin'',
        VerifyFile ''data'' ''/home/u/pgp-cp_quar/bad.sig'' (Inr (demo_report False 3))]
   \<and> lookup (files w) ''/home/u/pgp-cp_quar/a.bin'' = Some (File ''data'')\<close>
  by code_simp

lemma run_trust_5:
  "case script (toy_env 3) trust_5_argv demo_fs of (st, w) \<Rightarrow> st = 2 \<and> calls w = []"
  by code_simp

lemma demo_staged_absent: "lookup demo_fs ''/home/u/pgp-cp_quar/a.bin'' = None"
  by code_simp

lemma demo_normal: "normal_paths (toy_env t) demo_args"
  "normal_paths (toy_env t) (demo_args\<lparr>sig_path := ''/in/bad.sig''\<rparr>)"
  by code_simp+

section \<open>The claims\<close>

subsection \<open>Argument parsing\<close>




subsection \<open>The GnuPG instance\<close>

text \<open>
  C5. If the constructor \<open>gnupg.GPG\<close> raises, the run ends with status 1; the file
  system is the one the run started with, and the constructor is the only external
  call the run has made: the quarantine directory is neither looked up nor created,
  and nothing is copied.
\<close>

theorem engine_init_failure:
  assumes run: "script env argv fs0 = (status, w')"
      and f: "GPGInit h (Some e) \<in> set (calls w')"
  shows "status = 1 \<and> files w' = fs0 \<and> calls w' = [GPGInit h (Some e)]"
proof -
  let ?w0 = "init_world fs0"
  have c0: "calls ?w0 = []" "files ?w0 = fs0" by (simp_all add: init_world_def)
  have ie: "import_error env = None"
    using run f by (cases "import_error env") (auto simp: script_def sys_exit_def init_world_def)
  then have m: "main env argv ?w0 = (status, w')" using run by (simp add: script_def)
  obtain a where p: "parse_args argv = Inr a"
    using m f c0 by (cases "parse_args argv") (auto simp: main_def sys_exit_def)
  obtain r1 w1 where li: "log_init env (log_dest a) (log_verbose a) ?w0 = (r1, w1)" by force
  note F1 = log_init_frame [OF li]
  have r1: "r1 = Inr ()"
  proof (cases r1)
    case (Inl e)
    then show ?thesis using m f p li F1 c0 by (auto simp: main_def uncaught_def)
  qed simp
  obtain r4 w4 where g: \<open>do_GPG env (gpg_home a)
      (logger_debug (fmt ''Creating GnuPG instance with home "%s"'' [gpg_home a])
        (logger_debug (fmt ''Application started by user ID "%i" with arguments: "%s"''
                    [str_nat (os_getuid env), str_args env a]) w1)) = (r4, w4)\<close> by force
  have w4: "files w4 = fs0"
    "calls w4 = [GPGInit (gpg_home a) (case r4 of Inl e \<Rightarrow> Some e | Inr g \<Rightarrow> None)]"
    using g F1 c0 by (auto simp: do_GPG_eq)
  show ?thesis
  proof (cases r4)
    case (Inl e')
    then have "status = 1" "files w' = fs0" "calls w' = [GPGInit (gpg_home a) (Some e')]"
      using m p li r1 g w4 by (auto simp: main_def sys_exit_def Let_def)
    then show ?thesis using f by auto
  next
    case (Inr gh)
    have c4: "calls w4 = [GPGInit (gpg_home a) None]" using w4(2) Inr by simp
    obtain r6 w6 where q: \<open>quarantine env a
        (logger_debug (fmt ''Setting up quarantine directory in "%s"'' [quar_dir a]) w4) = (r6, w6)\<close>
      by force
    have m6: \<open>(status, w') = (case (r6, w6) of
          (Inl e, w6) \<Rightarrow>
            sys_exit 1
              (logger_error
                 (fmt ''Failed to quaratine input file "%s" in "%s": "%s"''
                    [input_path a, quar_dir a, str_exn e]) w6)
        | (Inr (input_path', sig_path'), w6) \<Rightarrow>
       (let w7 = logger_info (fmt ''Loading signed input file from "%s"'' [input_path']) w6 in
        case load_signed env gh input_path' sig_path' w7 of
          (Inl e, w8) \<Rightarrow>
            sys_exit 1 (logger_error (fmt ''Failed to open input file: "%s"'' [str_exn e]) w8)
        | (Inr input_data, w8) \<Rightarrow> main_verify a input_path' sig_path' input_data w8))\<close>
      using m p li r1 g Inr q by (simp add: main_def Let_def)
    have "GPGInit h (Some e) \<notin> set (calls w')"
    proof (cases r6)
      case (Inl e6)
      then show ?thesis using m6 quarantine_Inl [OF q [unfolded Inl]] c4
        by (auto simp: sys_exit_def)
    next
      case r6: (Inr x)
      obtain ip' sp' where x: "x = (ip', sp')" by (cases x)
      note Q = quarantine_Inr [OF q [unfolded r6 x]]
      have n6: "GPGInit h (Some e) \<notin> set (calls w6)" using Q(4) c4 by auto
      obtain r8 w8 where l: \<open>load_signed env gh ip' sp'
          (logger_info (fmt ''Loading signed input file from "%s"'' [ip']) w6) = (r8, w8)\<close> by force
      have m8: \<open>(status, w') = (case r8 of
            Inl e \<Rightarrow> sys_exit 1 (logger_error (fmt ''Failed to open input file: "%s"'' [str_exn e]) w8)
          | Inr input_data \<Rightarrow> main_verify a ip' sp' input_data w8)\<close>
        using m6 r6 x l by (simp add: Let_def split: sum.splits)
      have n8: "GPGInit h (Some e) \<notin> set (calls w8)"
        using l n6 by (auto simp: load_signed_eq split: sum.splits)
      show ?thesis
      proof (cases r8)
        case (Inl e8)
        then show ?thesis using m8 n8 by (auto simp: sys_exit_def)
      next
        case (Inr v)
        then show ?thesis using m8 n8 main_verify_calls [of a ip' sp' v w8 status w'] by auto
      qed
    qed
    then show ?thesis using f by simp
  qed
qed

theorem engine_init_failure_witness:
  "GPGInit ''~/.gnupg'' (Some (GnuPGError ''no such home''))
     \<in> set (calls (snd (script broken_env demo_argv demo_fs)))
   \<and> fst (script broken_env demo_argv demo_fs) = 1
   \<and> files (snd (script broken_env demo_argv demo_fs)) = demo_fs
   \<and> calls (snd (script broken_env demo_argv demo_fs))
       = [GPGInit ''~/.gnupg'' (Some (GnuPGError ''no such home''))]"
proof -
  have c: "calls (snd (script broken_env demo_argv demo_fs))
             = [GPGInit ''~/.gnupg'' (Some (GnuPGError ''no such home''))]"
    using run_broken by (simp add: split_beta)
  then have h: "GPGInit ''~/.gnupg'' (Some (GnuPGError ''no such home''))
                  \<in> set (calls (snd (script broken_env demo_argv demo_fs)))" by simp
  from engine_init_failure [OF surjective_pairing h] show ?thesis using h by simp
qed

subsection \<open>Logging setup\<close>

lemma log_init_stream: "log_init env ''stream'' v w = (r, w1) \<Longrightarrow>
    r = Inr () \<and> logger_handlers w1 = logger_handlers w @ [StreamHandler]"
  by (auto simp: log_init_def Let_def split: if_splits)

lemma log_init_none: "log_init env ''none'' v w = (r, w1) \<Longrightarrow>
    r = Inr () \<and> logger_handlers w1 = logger_handlers w @ [CustomNullHandler]"
  by (auto simp: log_init_def Let_def split: if_splits)

lemma log_init_syslog: "log_init env ''syslog'' v w = (r, w1) \<Longrightarrow>
    (r = Inr ()) = (logging_handlers_loaded env \<and> dev_log_connects env)"
  by (auto simp: log_init_def Let_def split: if_splits)

text \<open>
  C6. The destination \<open>syslog\<close> in an environment in which no imported module has
  loaded \<open>logging.handlers\<close>: \<open>log_init\<close> raises AttributeError, nothing catches it,
  and the run ends with status 1 before the GnuPG instance is created or any file is
  touched. (The destinations \<open>stream\<close> and \<open>none\<close> always succeed, lemmas
  \<open>log_init_stream\<close> and \<open>log_init_none\<close>.)
\<close>

theorem syslog_setup_raises:
  "fst (log_init (toy_env 3) ''syslog'' False (init_world demo_fs))
     = Inl (AttributeError ''module logging has no attribute handlers'')
   \<and> parse_args (demo_argv @ [OptLogDest ''syslog''])
       = Inr (demo_args\<lparr>log_dest := ''syslog''\<rparr>)
   \<and> fst (script (toy_env 3) (demo_argv @ [OptLogDest ''syslog'']) demo_fs) = 1
   \<and> calls (snd (script (toy_env 3) (demo_argv @ [OptLogDest ''syslog'']) demo_fs)) = []
   \<and> logger_handlers (snd (script (toy_env 3) (demo_argv @ [OptLogDest ''syslog'']) demo_fs)) = []"
proof -
  have "fst (log_init (toy_env 3) ''syslog'' False (init_world demo_fs))
          = Inl (AttributeError ''module logging has no attribute handlers'')"
    by code_simp
  moreover have "parse_args (demo_argv @ [OptLogDest ''syslog''])
                   = Inr (demo_args\<lparr>log_dest := ''syslog''\<rparr>)"
    by code_simp
  ultimately show ?thesis using run_syslog by (simp add: split_beta)
qed

subsection \<open>Runs that stop before the verification\<close>

lemma no_verification_status:
  assumes p: "parse_args argv = Inr a"
      and run: "script env argv fs0 = (st, w')"
      and nv: "\<forall>d sp r. VerifyFile d sp r \<notin> set (calls w')"
  shows "st = 1 \<or> st = 3"
  using assms unfolding script_def main_def Let_def sys_exit_def uncaught_def
  by (auto split: option.splits sum.splits prod.splits
           simp: load_signed_eq dest!: main_verify_calls)


lemma inside_join:
  assumes "slash \<notin> set b" "os_path_join qd b \<noteq> []" "\<not> ends_slash (os_path_join qd b)"
  shows "inside qd (os_path_join qd b)"
proof -
  have "b \<noteq> []"
  proof
    assume "b = []"
    then show False using assms(2,3) by (auto simp: os_path_join_def ends_slash_def split: if_splits)
  qed
  then show ?thesis using assms(1) by (simp add: inside_def basename_join)
qed

lemma inside_staged:
  "staged_input env a \<noteq> [] \<Longrightarrow> \<not> ends_slash (staged_input env a)
     \<Longrightarrow> inside (quarantine_dir env a) (staged_input env a)"
  "staged_sig env a \<noteq> [] \<Longrightarrow> \<not> ends_slash (staged_sig env a)
     \<Longrightarrow> inside (quarantine_dir env a) (staged_sig env a)"
  unfolding staged_input_def staged_sig_def
  by (rule inside_join [OF basename_no_slash]; assumption)+

lemma staged_keys_differ:
  "os_path_basename (input_path a) \<noteq> os_path_basename (sig_path a)
     \<Longrightarrow> key (staged_input env a) \<noteq> key (staged_sig env a)"
  unfolding staged_input_def staged_sig_def
  by (rule key_join_inj [OF basename_no_slash basename_no_slash])

subsection \<open>Rejection at the trust gate\<close>

lemma normal_output_apart:
  assumes n: "normal_paths env a"
      and o: "output_path a \<notin> {quarantine_dir env a, staged_input env a, staged_sig env a}"
      and e: "\<not> ends_slash (staged_input env a)" "\<not> ends_slash (staged_sig env a)"
  shows "key (output_path a) \<notin> {key (quarantine_dir env a), key (staged_input env a),
           key (staged_sig env a)}"
  using n o e by (simp add: normal_paths_def normal_key key_plain)

text \<open>
  C2, as stated, fails in two places. The output path of this run is the path of the
  staged input: the engine reports a valid signature of trust level 2, one below the
  required level, the run ends with status 2, and the output path, which named nothing
  before the run, holds a file with the contents of the input. And the status 2 is not
  the status of this outcome alone: the second run, with the trust level 5 on the
  command line, ends with status 2 in \<open>parse_args\<close>, before any external call.
\<close>

theorem insufficient_trust_leaves_file_at_output_path:
  "parse_args staged_output_argv
     = Inr (demo_args\<lparr>output_path := ''/home/u/pgp-cp_quar/a.bin''\<rparr>)
   \<and> VerifyFile ''data'' ''/home/u/pgp-cp_quar/a.bin.sig'' (Inr (demo_report True 2))
        \<in> set (calls (snd (script (toy_env 2) staged_output_argv demo_fs)))
   \<and> valid (demo_report True 2)
   \<and> trust_level (demo_report True 2)
        < required_trust_level (demo_args\<lparr>output_path := ''/home/u/pgp-cp_quar/a.bin''\<rparr>)
   \<and> fst (script (toy_env 2) staged_output_argv demo_fs) = 2
   \<and> lookup demo_fs ''/home/u/pgp-cp_quar/a.bin'' = None
   \<and> lookup (files (snd (script (toy_env 2) staged_output_argv demo_fs)))
        ''/home/u/pgp-cp_quar/a.bin'' = Some (File ''data'')
   \<and> fst (script (toy_env 3) trust_5_argv demo_fs) = 2
   \<and> calls (snd (script (toy_env 3) trust_5_argv demo_fs)) = []"
  using run_rejected_staged_output run_trust_5 staged_output_parse demo_staged_absent
  by (simp add: split_beta demo_report_def demo_args_def)

text \<open>
  C2, amended. A run in which \<open>verify_file\<close> reports a valid signature whose trust
  level is below the required one ends with status 2, and the verification is the last
  external call it makes: \<open>shutil.move\<close> is never called, and the file system is what
  the stager left (the quarantine directory and the two staged copies are the only
  entries written). So the output path holds what it held before the run, provided
  that it is not the quarantine directory or one of the two staged paths, the four
  paths of the run being in normal form. Among the runs that have passed argument
  parsing, status 2 is the status of this outcome only.
\<close>

theorem insufficient_trust_exit_2:
  assumes p: "parse_args argv = Inr a"
      and run: "script env argv fs0 = (status, w')"
  shows "(\<forall>d sp r. VerifyFile d sp (Inr r) \<in> set (calls w') \<and> valid r
              \<and> trust_level r < required_trust_level a \<longrightarrow>
            status = 2 \<and> last (calls w') = VerifyFile d sp (Inr r)
            \<and> files w' = quarantined env a fs0
            \<and> (normal_paths env a
                 \<and> output_path a \<notin> {quarantine_dir env a, staged_input env a,
                                      staged_sig env a} \<longrightarrow>
                 lookup (files w') (output_path a) = lookup fs0 (output_path a)))
       \<and> (status = 2 \<longrightarrow>
            (\<exists>d sp r. VerifyFile d sp (Inr r) \<in> set (calls w') \<and> valid r
               \<and> trust_level r < required_trust_level a))"
proof (intro conjI allI impI)
  fix d sp r
  assume h: "VerifyFile d sp (Inr r) \<in> set (calls w') \<and> valid r
              \<and> trust_level r < required_trust_level a"
  from reach_gate [OF p run conjunct1 [OF h]] obtain w8 where
      f8: "files w8 = quarantined env a fs0"
      and ne: "\<not> ends_slash (staged_input env a)" "\<not> ends_slash (staged_sig env a)"
      and c8: "calls w8 = [GPGInit (gpg_home a) None, Exists (quarantine_dir env a)]
          @ (if os_path_exists fs0 (quarantine_dir env a) then [] else [Mkdir (quarantine_dir env a)])
          @ [Copy (input_path a) (quarantine_dir env a), Copy (sig_path a) (quarantine_dir env a),
             Open (staged_input env a), VerifyFile d sp (Inr r)]"
      and m: "(status, w') = main_verify a (staged_input env a) sp r w8"
    by blast
  note R = main_verify_reject [OF m [symmetric]]
  show "status = 2" using R(1) h by simp
  show "last (calls w') = VerifyFile d sp (Inr r)" using R(3) h c8 by simp
  show f: "files w' = quarantined env a fs0" using R(2) h f8 by simp
  show "lookup (files w') (output_path a) = lookup fs0 (output_path a)"
    if "normal_paths env a
          \<and> output_path a \<notin> {quarantine_dir env a, staged_input env a, staged_sig env a}"
    using normal_output_apart [OF conjunct1 [OF that] conjunct2 [OF that] ne] f
    by (simp add: quarantined_frame)
next
  assume s2: "status = 2"
  have "\<exists>d sp r. VerifyFile d sp r \<in> set (calls w')"
    using no_verification_status [OF p run] s2 by auto
  then obtain d sp r where v: "VerifyFile d sp r \<in> set (calls w')" by blast
  from reach_gate [OF p run v] obtain w8 where
      e: "\<forall>e. r = Inl e \<longrightarrow> status = 1 \<and> files w' = files w8 \<and> calls w' = calls w8"
      and m: "\<forall>x. r = Inr x \<longrightarrow> (status, w') = main_verify a (staged_input env a) sp x w8"
    by blast
  show "\<exists>d sp r. VerifyFile d sp (Inr r) \<in> set (calls w') \<and> valid r
               \<and> trust_level r < required_trust_level a"
  proof (cases r)
    case (Inl x)
    then show ?thesis using e s2 by simp
  next
    case (Inr x)
    then have "main_verify a (staged_input env a) sp x w8 = (2, w')" using m s2 by simp
    from main_verify_status_2 [OF this] show ?thesis using v Inr by blast
  qed
qed

theorem insufficient_trust_exit_2_witness:
  "parse_args demo_argv = Inr demo_args
   \<and> VerifyFile ''data'' ''/home/u/pgp-cp_quar/a.bin.sig'' (Inr (demo_report True 2))
        \<in> set (calls (snd (script (toy_env 2) demo_argv demo_fs)))
   \<and> valid (demo_report True 2)
   \<and> trust_level (demo_report True 2) < required_trust_level demo_args
   \<and> normal_paths (toy_env 2) demo_args
   \<and> output_path demo_args \<notin> {quarantine_dir (toy_env 2) demo_args,
        staged_input (toy_env 2) demo_args, staged_sig (toy_env 2) demo_args}
   \<and> fst (script (toy_env 2) demo_argv demo_fs) = 2
   \<and> lookup (files (snd (script (toy_env 2) demo_argv demo_fs))) ''/out/output.bin'' = None"
proof -
  let ?run = "script (toy_env 2) demo_argv demo_fs"
  have v: "VerifyFile ''data'' ''/home/u/pgp-cp_quar/a.bin.sig'' (Inr (demo_report True 2))
             \<in> set (calls (snd ?run))"
    by (simp add: demo_calls_rejected)
  have r: "valid (demo_report True 2)"
      "trust_level (demo_report True 2) < required_trust_level demo_args"
    by (simp_all add: demo_report_def demo_args_def)
  have o: "output_path demo_args = ''/out/output.bin''" by (simp add: demo_args_def)
  have n: "normal_paths (toy_env 2) demo_args" by (rule demo_normal(1))
  have a: "output_path demo_args \<notin> {quarantine_dir (toy_env 2) demo_args,
        staged_input (toy_env 2) demo_args, staged_sig (toy_env 2) demo_args}"
    by code_simp
  from insufficient_trust_exit_2 [OF demo_parse surjective_pairing, of "toy_env 2" demo_fs]
  have "fst ?run = 2 \<and> lookup (files (snd ?run)) (output_path demo_args)
          = lookup demo_fs (output_path demo_args)"
    using v r n a by blast
  then show ?thesis using v r n a demo_parse by (simp add: o demo_output_absent)
qed

text \<open>
  C3, as stated, fails: the output path of this run is the path of the staged input.
  The engine reports an invalid signature, the run ends with status 1, and the output
  path, which named nothing before the run, holds a file with the contents of the
  input.
\<close>

theorem invalid_signature_leaves_file_at_output_path:
  "parse_args bad_sig_staged_output_argv
     = Inr (demo_args\<lparr>sig_path := ''/in/bad.sig'', output_path := ''/home/u/pgp-cp_quar/a.bin''\<rparr>)
   \<and> VerifyFile ''data'' ''/home/u/pgp-cp_quar/bad.sig'' (Inr (demo_report False 3))
        \<in> set (calls (snd (script (toy_env 3) bad_sig_staged_output_argv demo_fs)))
   \<and> \<not> valid (demo_report False 3)
   \<and> fst (script (toy_env 3) bad_sig_staged_output_argv demo_fs) = 1
   \<and> lookup demo_fs ''/home/u/pgp-cp_quar/a.bin'' = None
   \<and> lookup (files (snd (script (toy_env 3) bad_sig_staged_output_argv demo_fs)))
        ''/home/u/pgp-cp_quar/a.bin'' = Some (File ''data'')"
  using run_invalid_staged_output bad_sig_staged_output_parse demo_staged_absent
  by (simp add: split_beta demo_report_def)

text \<open>
  C3, amended. A run in which \<open>verify_file\<close> reports an invalid signature ends with
  status 1, and the verification is the last external call it makes: \<open>shutil.move\<close>
  is never called, and the file system is what the stager left. So the output path
  holds what it held before the run, provided that it is not the quarantine directory
  or one of the two staged paths, the four paths of the run being in normal form.
\<close>

theorem invalid_signature_exit_1:
  assumes p: "parse_args argv = Inr a"
      and run: "script env argv fs0 = (status, w')"
      and v: "VerifyFile d sp (Inr r) \<in> set (calls w')"
      and nv: "\<not> valid r"
  shows "status = 1 \<and> last (calls w') = VerifyFile d sp (Inr r)
         \<and> files w' = quarantined env a fs0
         \<and> (normal_paths env a
              \<and> output_path a \<notin> {quarantine_dir env a, staged_input env a,
                                   staged_sig env a} \<longrightarrow>
              lookup (files w') (output_path a) = lookup fs0 (output_path a))"
proof -
  from reach_gate [OF p run v] obtain w8 where
      f8: "files w8 = quarantined env a fs0"
      and ne: "\<not> ends_slash (staged_input env a)" "\<not> ends_slash (staged_sig env a)"
      and c8: "calls w8 = [GPGInit (gpg_home a) None, Exists (quarantine_dir env a)]
          @ (if os_path_exists fs0 (quarantine_dir env a) then [] else [Mkdir (quarantine_dir env a)])
          @ [Copy (input_path a) (quarantine_dir env a), Copy (sig_path a) (quarantine_dir env a),
             Open (staged_input env a), VerifyFile d sp (Inr r)]"
      and m: "(status, w') = main_verify a (staged_input env a) sp r w8"
    by blast
  have rej: "\<not> valid r \<or> trust_level r < required_trust_level a" using nv by simp
  note R = main_verify_reject [OF m [symmetric] rej]
  have f: "files w' = quarantined env a fs0" using R(2) f8 by simp
  have "lookup (files w') (output_path a) = lookup fs0 (output_path a)"
    if "normal_paths env a
          \<and> output_path a \<notin> {quarantine_dir env a, staged_input env a, staged_sig env a}"
    using normal_output_apart [OF conjunct1 [OF that] conjunct2 [OF that] ne] f
    by (simp add: quarantined_frame)
  then show ?thesis using R(1,3) nv c8 f by simp
qed

theorem invalid_signature_exit_1_witness:
  "parse_args bad_sig_argv = Inr (demo_args\<lparr>sig_path := ''/in/bad.sig''\<rparr>)
   \<and> VerifyFile ''data'' ''/home/u/pgp-cp_quar/bad.sig'' (Inr (demo_report False 3))
        \<in> set (calls (snd (script (toy_env 3) bad_sig_argv demo_fs)))
   \<and> \<not> valid (demo_report False 3)
   \<and> normal_paths (toy_env 3) (demo_args\<lparr>sig_path := ''/in/bad.sig''\<rparr>)
   \<and> output_path (demo_args\<lparr>sig_path := ''/in/bad.sig''\<rparr>)
        \<notin> {quarantine_dir (toy_env 3) (demo_args\<lparr>sig_path := ''/in/bad.sig''\<rparr>),
           staged_input (toy_env 3) (demo_args\<lparr>sig_path := ''/in/bad.sig''\<rparr>),
           staged_sig (toy_env 3) (demo_args\<lparr>sig_path := ''/in/bad.sig''\<rparr>)}
   \<and> fst (script (toy_env 3) bad_sig_argv demo_fs) = 1
   \<and> lookup (files (snd (script (toy_env 3) bad_sig_argv demo_fs))) ''/out/output.bin'' = None"
proof -
  let ?run = "script (toy_env 3) bad_sig_argv demo_fs"
  let ?a = "demo_args\<lparr>sig_path := ''/in/bad.sig''\<rparr>"
  have v: "VerifyFile ''data'' ''/home/u/pgp-cp_quar/bad.sig'' (Inr (demo_report False 3))
             \<in> set (calls (snd ?run))"
    by (simp add: bad_sig_calls)
  have r: "\<not> valid (demo_report False 3)" by (simp add: demo_report_def)
  have o: "output_path ?a = ''/out/output.bin''" by (simp add: demo_args_def)
  have n: "normal_paths (toy_env 3) ?a" by (rule demo_normal(2))
  have a: "output_path ?a \<notin> {quarantine_dir (toy_env 3) ?a,
        staged_input (toy_env 3) ?a, staged_sig (toy_env 3) ?a}"
    by code_simp
  from invalid_signature_exit_1 [OF bad_sig_parse surjective_pairing v r]
  have "fst ?run = 1 \<and> lookup (files (snd ?run)) (output_path ?a) = lookup demo_fs (output_path ?a)"
    using n a by blast
  then show ?thesis using v r n a bad_sig_parse by (simp add: o demo_output_absent)
qed

text \<open>
  C10, as stated, fails: input and signature of this run have the same base name, so
  the two staged paths are one path. The stager copies the signature over the copy of
  the input, the engine reports an invalid signature, and the run ends with status 1.
  The quarantine then holds one file, with the contents of the signature; no copy of
  the input remains.
\<close>

theorem rejected_run_without_copy_of_input:
  "parse_args same_name_argv = Inr (demo_args\<lparr>sig_path := ''/sigs/a.bin''\<rparr>)
   \<and> VerifyFile ''signed:data'' ''/home/u/pgp-cp_quar/a.bin'' (Inr (demo_report False 3))
        \<in> set (calls (snd (script (toy_env 3) same_name_argv demo_fs)))
   \<and> \<not> valid (demo_report False 3)
   \<and> fst (script (toy_env 3) same_name_argv demo_fs) = 1
   \<and> lookup demo_fs ''/in/a.bin'' = Some (File ''data'')
   \<and> staged_input (toy_env 3) (demo_args\<lparr>sig_path := ''/sigs/a.bin''\<rparr>)
        = ''/home/u/pgp-cp_quar/a.bin''
   \<and> staged_sig (toy_env 3) (demo_args\<lparr>sig_path := ''/sigs/a.bin''\<rparr>)
        = ''/home/u/pgp-cp_quar/a.bin''
   \<and> lookup (files (snd (script (toy_env 3) same_name_argv demo_fs)))
        ''/home/u/pgp-cp_quar/a.bin'' = Some (File ''signed:data'')"
proof -
  have "lookup demo_fs ''/in/a.bin'' = Some (File ''data'')"
    "staged_input (toy_env 3) (demo_args\<lparr>sig_path := ''/sigs/a.bin''\<rparr>)
        = ''/home/u/pgp-cp_quar/a.bin''"
    "staged_sig (toy_env 3) (demo_args\<lparr>sig_path := ''/sigs/a.bin''\<rparr>)
        = ''/home/u/pgp-cp_quar/a.bin''"
    by code_simp+
  then show ?thesis using run_same_name same_name_parse
    by (simp add: split_beta demo_report_def)
qed

text \<open>
  C10, amended. A run that the trust gate rejects (invalid signature, status 1, or
  insufficient trust, status 2) makes no call after the verification: nothing is moved
  and nothing is removed, and both paths in the quarantine still hold regular files.
  The file at the staged signature path is the copy of the caller's signature; the file
  at the staged input path holds the data that were verified, and it is the copy of the
  caller's input whenever the two base names differ.
\<close>

theorem rejected_run_keeps_staged_copies:
  assumes p: "parse_args argv = Inr a"
      and run: "script env argv fs0 = (status, w')"
      and v: "VerifyFile d sp (Inr r) \<in> set (calls w')"
      and rej: "\<not> valid r \<or> trust_level r < required_trust_level a"
  shows "status = (if valid r then 2 else 1)
       \<and> last (calls w') = VerifyFile d sp (Inr r)
       \<and> (\<forall>src dst. Move src dst \<notin> set (calls w'))
       \<and> (\<forall>q. Remove q \<notin> set (calls w'))
       \<and> lookup (files w') (staged_input env a) = Some (File d)
       \<and> (\<exists>s. lookup fs0 (sig_path a) = Some (File s)
              \<and> lookup (files w') (staged_sig env a) = Some (File s))
       \<and> (os_path_basename (input_path a) \<noteq> os_path_basename (sig_path a) \<longrightarrow>
            lookup fs0 (input_path a) = Some (File d))"
proof -
  let ?qd = "quarantine_dir env a" and ?ip = "staged_input env a" and ?sp = "staged_sig env a"
  from reach_gate [OF p run v] obtain w8 din s where
      l1: "lookup fs0 (input_path a) = Some (File din)"
      and l2: "lookup fs0 (sig_path a) = Some (File s)"
      and f8: "files w8 = fs0(key ?qd \<mapsto> Dir, key ?ip \<mapsto> File din, key ?sp \<mapsto> File s)"
      and d: "d = (if key ?ip = key ?sp then s else din)"
      and ne: "?ip \<noteq> []" "?sp \<noteq> []" "\<not> ends_slash ?ip" "\<not> ends_slash ?sp"
      and c8: "calls w8 = [GPGInit (gpg_home a) None, Exists ?qd]
          @ (if os_path_exists fs0 ?qd then [] else [Mkdir ?qd])
          @ [Copy (input_path a) ?qd, Copy (sig_path a) ?qd, Open ?ip, VerifyFile d sp (Inr r)]"
      and m: "(status, w') = main_verify a ?ip sp r w8"
    by blast
  note R = main_verify_reject [OF m [symmetric] rej]
  have f: "files w' = fs0(key ?qd \<mapsto> Dir, key ?ip \<mapsto> File din, key ?sp \<mapsto> File s)"
    using R(2) f8 by simp
  have c: "calls w' = [GPGInit (gpg_home a) None, Exists ?qd]
          @ (if os_path_exists fs0 ?qd then [] else [Mkdir ?qd])
          @ [Copy (input_path a) ?qd, Copy (sig_path a) ?qd, Open ?ip, VerifyFile d sp (Inr r)]"
    using R(3) c8 by simp
  have "last (calls w') = VerifyFile d sp (Inr r)" by (simp add: c)
  moreover have "Move src dst \<notin> set (calls w')" for src dst by (simp add: c)
  moreover have "Remove q \<notin> set (calls w')" for q by (simp add: c)
  moreover have "lookup (files w') ?ip = Some (File d)"
    using ne d by (simp add: f lookup_File_iff)
  moreover have "lookup (files w') ?sp = Some (File s)"
    using ne by (simp add: f lookup_File_iff)
  moreover have "lookup fs0 (input_path a) = Some (File d)"
    if "os_path_basename (input_path a) \<noteq> os_path_basename (sig_path a)"
    using staged_keys_differ [OF that, of env] d l1 by simp
  ultimately show ?thesis using R(1) l2 by blast
qed

theorem rejected_run_keeps_staged_copies_witness:
  "parse_args demo_argv = Inr demo_args
   \<and> VerifyFile ''data'' ''/home/u/pgp-cp_quar/a.bin.sig'' (Inr (demo_report True 2))
        \<in> set (calls (snd (script (toy_env 2) demo_argv demo_fs)))
   \<and> valid (demo_report True 2)
   \<and> trust_level (demo_report True 2) < required_trust_level demo_args
   \<and> os_path_basename (input_path demo_args) \<noteq> os_path_basename (sig_path demo_args)
   \<and> fst (script (toy_env 2) demo_argv demo_fs) = 2
   \<and> lookup (files (snd (script (toy_env 2) demo_argv demo_fs))) ''/home/u/pgp-cp_quar/a.bin''
        = Some (File ''data'')
   \<and> lookup (files (snd (script (toy_env 2) demo_argv demo_fs))) ''/home/u/pgp-cp_quar/a.bin.sig''
        = Some (File ''signed:data'')
   \<and> lookup demo_fs ''/in/a.bin'' = Some (File ''data'')"
proof -
  let ?run = "script (toy_env 2) demo_argv demo_fs"
  have v: "VerifyFile ''data'' ''/home/u/pgp-cp_quar/a.bin.sig'' (Inr (demo_report True 2))
             \<in> set (calls (snd ?run))"
    by (simp add: demo_calls_rejected)
  have r: "\<not> valid (demo_report True 2)
             \<or> trust_level (demo_report True 2) < required_trust_level demo_args"
    by (simp add: demo_report_def demo_args_def)
  have b: "os_path_basename (input_path demo_args) \<noteq> os_path_basename (sig_path demo_args)"
    by code_simp
  have n: "staged_input (toy_env 2) demo_args = ''/home/u/pgp-cp_quar/a.bin''"
      "staged_sig (toy_env 2) demo_args = ''/home/u/pgp-cp_quar/a.bin.sig''"
      "lookup demo_fs (sig_path demo_args) = Some (File ''signed:data'')"
      "input_path demo_args = ''/in/a.bin''"
    by code_simp+
  from rejected_run_keeps_staged_copies [OF demo_parse surjective_pairing v r]
  show ?thesis using v b demo_parse n by (auto simp: demo_report_def demo_args_def)
qed

subsection \<open>The quarantine\<close>

text \<open>
  C7. In a run that reaches the verification call, every path that the verification and
  the final operations act on (the file opened for \<open>verify_file\<close>, its \<open>sig_file\<close>,
  the source of \<open>shutil.move\<close>, the file given to \<open>os.remove\<close>) is one of the two paths
  built in the quarantine: an entry of the quarantine directory, and not the entry that
  the caller's input path or signature path names.
\<close>

theorem operations_inside_quarantine:
  assumes p: "parse_args argv = Inr a"
      and run: "script env argv fs0 = (status, w')"
      and v: "VerifyFile d sp r \<in> set (calls w')"
  shows "\<forall>c \<in> set (calls w'). \<forall>q \<in> set (operand_paths c).
           (q = staged_input env a \<or> q = staged_sig env a)
           \<and> inside (quarantine_dir env a) q
           \<and> key q \<noteq> key (input_path a) \<and> key q \<noteq> key (sig_path a)"
proof -
  let ?qd = "quarantine_dir env a" and ?ip = "staged_input env a" and ?sp = "staged_sig env a"
  from reach_gate [OF p run v] obtain w8 where
      sp: "sp = ?sp"
      and ne: "?ip \<noteq> []" "?sp \<noteq> []" "\<not> ends_slash ?ip" "\<not> ends_slash ?sp"
      and k: "key (input_path a) \<noteq> key ?ip" "key (sig_path a) \<noteq> key ?sp"
             "key (sig_path a) \<noteq> key ?ip" "key (input_path a) \<noteq> key ?sp"
      and c8: "calls w8 = [GPGInit (gpg_home a) None, Exists ?qd]
          @ (if os_path_exists fs0 ?qd then [] else [Mkdir ?qd])
          @ [Copy (input_path a) ?qd, Copy (sig_path a) ?qd, Open ?ip, VerifyFile d sp r]"
      and e: "\<forall>e. r = Inl e \<longrightarrow> status = 1 \<and> files w' = files w8 \<and> calls w' = calls w8"
      and m: "\<forall>x. r = Inr x \<longrightarrow> (status, w') = main_verify a ?ip sp x w8"
    by blast
  have good: "(q = ?ip \<or> q = ?sp) \<Longrightarrow> (q = ?ip \<or> q = ?sp) \<and> inside ?qd q
           \<and> key q \<noteq> key (input_path a) \<and> key q \<noteq> key (sig_path a)" for q
    using inside_staged [of env a] ne k by auto
  have c': "calls w' = calls w8
         \<or> (\<exists>cs. calls w' = calls w8 @ Move ?ip (output_path a) # cs \<and> set cs \<subseteq> {Remove sp})"
  proof (cases r)
    case (Inl x)
    then show ?thesis using e by simp
  next
    case (Inr x)
    then show ?thesis using m main_verify_calls [of a ?ip sp x w8 status w'] by auto
  qed
  have "q = ?ip \<or> q = ?sp" if "c \<in> set (calls w')" "q \<in> set (operand_paths c)" for c q
  proof -
    have "c \<in> set (calls w8) \<or> c = Move ?ip (output_path a) \<or> c = Remove sp"
      using c' that(1) by auto
    then show ?thesis using that(2) c8 sp by (auto split: if_splits)
  qed
  then show ?thesis using good by blast
qed

theorem operations_inside_quarantine_witness:
  "parse_args demo_argv = Inr demo_args
   \<and> Move ''/home/u/pgp-cp_quar/a.bin'' ''/out/output.bin''
        \<in> set (calls (snd (script (toy_env 3) demo_argv demo_fs)))
   \<and> VerifyFile ''data'' ''/home/u/pgp-cp_quar/a.bin.sig'' (Inr (demo_report True 3))
        \<in> set (calls (snd (script (toy_env 3) demo_argv demo_fs)))
   \<and> inside (quarantine_dir (toy_env 3) demo_args) ''/home/u/pgp-cp_quar/a.bin''
   \<and> key ''/home/u/pgp-cp_quar/a.bin'' \<noteq> key (input_path demo_args)
   \<and> inside (quarantine_dir (toy_env 3) demo_args) ''/home/u/pgp-cp_quar/a.bin.sig''
   \<and> key ''/home/u/pgp-cp_quar/a.bin.sig'' \<noteq> key (sig_path demo_args)"
proof -
  let ?run = "script (toy_env 3) demo_argv demo_fs"
  have c: "calls (snd ?run) =
     [GPGInit ''~/.gnupg'' None, Exists ''/home/u/pgp-cp_quar'', Mkdir ''/home/u/pgp-cp_quar'',
      Copy ''/in/a.bin'' ''/home/u/pgp-cp_quar'', Copy ''/in/a.bin.sig'' ''/home/u/pgp-cp_quar'',
      Open ''/home/u/pgp-cp_quar/a.bin'',
      VerifyFile ''data'' ''/home/u/pgp-cp_quar/a.bin.sig'' (Inr (demo_report True 3)),
      Move ''/home/u/pgp-cp_quar/a.bin'' ''/out/output.bin'',
      Remove ''/home/u/pgp-cp_quar/a.bin.sig'']"
    using run_accepted by (simp add: split_beta)
  have mv: "Move ''/home/u/pgp-cp_quar/a.bin'' ''/out/output.bin'' \<in> set (calls (snd ?run))"
    and v: "VerifyFile ''data'' ''/home/u/pgp-cp_quar/a.bin.sig'' (Inr (demo_report True 3))
             \<in> set (calls (snd ?run))"
    by (simp_all add: c)
  note T = operations_inside_quarantine [OF demo_parse surjective_pairing v]
  have "''/home/u/pgp-cp_quar/a.bin''
          \<in> set (operand_paths (Move ''/home/u/pgp-cp_quar/a.bin'' ''/out/output.bin''))"
    by simp
  from T [rule_format, OF mv this]
  have 1: "inside (quarantine_dir (toy_env 3) demo_args) ''/home/u/pgp-cp_quar/a.bin''
     \<and> key ''/home/u/pgp-cp_quar/a.bin'' \<noteq> key (input_path demo_args)" by blast
  have "''/home/u/pgp-cp_quar/a.bin.sig''
          \<in> set (operand_paths (VerifyFile ''data'' ''/home/u/pgp-cp_quar/a.bin.sig''
                                   (Inr (demo_report True 3))))"
    by simp
  from T [rule_format, OF v this]
  have 2: "inside (quarantine_dir (toy_env 3) demo_args) ''/home/u/pgp-cp_quar/a.bin.sig''
     \<and> key ''/home/u/pgp-cp_quar/a.bin.sig'' \<noteq> key (sig_path demo_args)" by blast
  show ?thesis using 1 2 mv v demo_parse by blast
qed

text \<open>
  C9. If the input path and the signature path have the same base name, the two paths
  in the quarantine are one path. A run that reaches the verification call has then
  overwritten the staged input with the signature: the data it reads from the staged
  path and hands to \<open>verify_file\<close> are the contents of the caller's signature file,
  and the \<open>sig_file\<close> it names is that same staged file.
\<close>

theorem same_basename_verifies_signature_against_itself:
  assumes p: "parse_args argv = Inr a"
      and run: "script env argv fs0 = (status, w')"
      and v: "VerifyFile d sp r \<in> set (calls w')"
      and same: "os_path_basename (input_path a) = os_path_basename (sig_path a)"
  shows "staged_input env a = staged_sig env a \<and> sp = staged_sig env a
       \<and> Open sp \<in> set (calls w')
       \<and> lookup fs0 (sig_path a) = Some (File d)
       \<and> lookup (quarantined env a fs0) sp = Some (File d)
       \<and> (\<exists>g. gnupg_GPG env (gpg_home a) = Inr g
              \<and> r = verify_file env g d sp (quarantined env a fs0))"
proof -
  let ?qd = "quarantine_dir env a" and ?ip = "staged_input env a" and ?sp = "staged_sig env a"
  have eq: "?ip = ?sp" using same by (simp add: staged_input_def staged_sig_def)
  from reach_gate [OF p run v] obtain g w8 din s where
      g: "gnupg_GPG env (gpg_home a) = Inr g"
      and sp: "sp = ?sp"
      and l2: "lookup fs0 (sig_path a) = Some (File s)"
      and f8: "files w8 = fs0(key ?qd \<mapsto> Dir, key ?ip \<mapsto> File din, key ?sp \<mapsto> File s)"
      and d: "d = (if key ?ip = key ?sp then s else din)"
      and ne: "?sp \<noteq> []" "\<not> ends_slash ?sp"
      and fq: "files w8 = quarantined env a fs0"
      and c8: "calls w8 = [GPGInit (gpg_home a) None, Exists ?qd]
          @ (if os_path_exists fs0 ?qd then [] else [Mkdir ?qd])
          @ [Copy (input_path a) ?qd, Copy (sig_path a) ?qd, Open ?ip, VerifyFile d sp r]"
      and r: "r = verify_file env g d sp (files w8)"
      and e: "\<forall>e. r = Inl e \<longrightarrow> status = 1 \<and> files w' = files w8 \<and> calls w' = calls w8"
      and m: "\<forall>x. r = Inr x \<longrightarrow> (status, w') = main_verify a ?ip sp x w8"
    by blast
  have ds: "d = s" using d eq by simp
  have c': "calls w' = calls w8
         \<or> (\<exists>cs. calls w' = calls w8 @ Move ?ip (output_path a) # cs \<and> set cs \<subseteq> {Remove sp})"
  proof (cases r)
    case (Inl x)
    then show ?thesis using e by simp
  next
    case (Inr x)
    then show ?thesis using m main_verify_calls [of a ?ip sp x w8 status w'] by auto
  qed
  have o: "Open sp \<in> set (calls w')" using c' c8 sp eq by auto
  have "lookup (files w8) ?sp = Some (File s)" using ne by (simp add: f8 lookup_File_iff)
  then have "lookup (quarantined env a fs0) sp = Some (File d)" using fq sp ds by simp
  then show ?thesis using eq sp o l2 ds g r fq by auto
qed

theorem same_basename_verifies_signature_against_itself_witness:
  "parse_args same_name_argv = Inr (demo_args\<lparr>sig_path := ''/sigs/a.bin''\<rparr>)
   \<and> os_path_basename ''/in/a.bin'' = os_path_basename ''/sigs/a.bin''
   \<and> VerifyFile ''signed:data'' ''/home/u/pgp-cp_quar/a.bin'' (Inr (demo_report False 3))
        \<in> set (calls (snd (script (toy_env 3) same_name_argv demo_fs)))
   \<and> Open ''/home/u/pgp-cp_quar/a.bin'' \<in> set (calls (snd (script (toy_env 3) same_name_argv demo_fs)))
   \<and> lookup demo_fs ''/sigs/a.bin'' = Some (File ''signed:data'')
   \<and> lookup demo_fs ''/in/a.bin'' = Some (File ''data'')"
proof -
  let ?run = "script (toy_env 3) same_name_argv demo_fs"
  let ?a = "demo_args\<lparr>sig_path := ''/sigs/a.bin''\<rparr>"
  have c: "calls (snd ?run) =
     [GPGInit ''~/.gnupg'' None, Exists ''/home/u/pgp-cp_quar'', Mkdir ''/home/u/pgp-cp_quar'',
      Copy ''/in/a.bin'' ''/home/u/pgp-cp_quar'', Copy ''/sigs/a.bin'' ''/home/u/pgp-cp_quar'',
      Open ''/home/u/pgp-cp_quar/a.bin'',
      VerifyFile ''signed:data'' ''/home/u/pgp-cp_quar/a.bin'' (Inr (demo_report False 3))]"
    using run_same_name by (simp add: split_beta)
  have v: "VerifyFile ''signed:data'' ''/home/u/pgp-cp_quar/a.bin'' (Inr (demo_report False 3))
             \<in> set (calls (snd ?run))"
    by (simp add: c)
  have b: "os_path_basename (input_path ?a) = os_path_basename (sig_path ?a)" by code_simp
  have b': "os_path_basename ''/in/a.bin'' = os_path_basename ''/sigs/a.bin''" by code_simp
  have s: "sig_path ?a = ''/sigs/a.bin''" by simp
  have i: "lookup demo_fs ''/in/a.bin'' = Some (File ''data'')" by code_simp
  from same_basename_verifies_signature_against_itself
         [OF same_name_parse surjective_pairing v b]
  have "Open ''/home/u/pgp-cp_quar/a.bin'' \<in> set (calls (snd ?run))"
    and "lookup demo_fs (sig_path ?a) = Some (File ''signed:data'')"
    by blast+
  then show ?thesis using v b' i same_name_parse by (simp add: s)
qed

subsection \<open>The audit records\<close>

lemma main_verify_records:
  assumes m: "main_verify a ip sp r w = (st, w')"
      and lv: "logger_level w = levelno (if log_verbose a then DEBUG else INFO)"
  shows \<open>(\<not> valid r \<longrightarrow>
            records w' = records w @
              [(INFO, ''Verifying signature of input file against trust database''),
               (ERROR, fmt ''Signature of file "%s" is not valid'' [ip])])
       \<and> (valid r \<and> trust_level r < required_trust_level a \<longrightarrow>
            records w' = records w @
              [(INFO, ''Verifying signature of input file against trust database''),
               (INFO, fmt ''Sinature was signed at "%s" by "%s" with key ID "%s"''
                        [creation_date r, username r, key_id r]),
               (ERROR, fmt ''Trust level "%i" of signature did not meet specified requirements''
                         [str_int (trust_level r)])])
       \<and> (valid r \<and> required_trust_level a \<le> trust_level r \<longrightarrow>
            (\<exists>post. records w' = records w @
              [(INFO, ''Verifying signature of input file against trust database''),
               (INFO, fmt ''Sinature was signed at "%s" by "%s" with key ID "%s"''
                        [creation_date r, username r, key_id r])]
              @ (if log_verbose a
                 then [(DEBUG, fmt ''Trust level of signature: "%i"'' [str_int (trust_level r)])]
                 else [])
              @ (INFO, fmt ''Moving quarantined file "%s" to output target "%s"''
                         [ip, output_path a]) # post))\<close>
  using m lv unfolding main_verify_def Let_def sys_exit_def
  by (auto simp: logger_log_records move_out_eq split: if_splits prod.splits sum.splits)


text \<open>
  C4, as stated, fails: a run whose signature is invalid ends right after the check of
  \<open>input_data.valid\<close>, before the record with signing time, signer and key ID is
  written. In this run the engine reports the signer Alice, the key 0xA1 and trust
  level 3 with an invalid signature; the log holds none of them.
\<close>

theorem audit_record_missing_for_invalid_signature:
  \<open>VerifyFile ''data'' ''/home/u/pgp-cp_quar/bad.sig'' (Inr (demo_report False 3))
     \<in> set (calls (snd (script (toy_env 3) bad_sig_argv demo_fs)))
   \<and> username (demo_report False 3) = ''Alice''
   \<and> key_id (demo_report False 3) = ''0xA1''
   \<and> fst (script (toy_env 3) bad_sig_argv demo_fs) = 1
   \<and> records (snd (script (toy_env 3) bad_sig_argv demo_fs)) =
       [(INFO, ''Creating quarantine directory "~/pgp-cp_quar"''),
        (INFO, ''Copying input file "/in/a.bin" and signature "/in/bad.sig" to quarantine "~/pgp-cp_quar"''),
        (INFO, ''Loading signed input file from "/home/u/pgp-cp_quar/a.bin"''),
        (INFO, ''Verifying signature of input file against trust database''),
        (ERROR, ''Signature of file "/home/u/pgp-cp_quar/a.bin" is not valid'')]\<close>
  using run_invalid by (simp add: split_beta demo_report_def)

text \<open>
  C4, amended. In a run that reaches the trust gate the records written there are
  these. If the signature is valid, the record with signing time, signer and key
  ID is written (at level INFO) before the trust level is compared; the trust level
  is then written in the ERROR record of the rejection for insufficient trust, or,
  when the run is accepted, in a DEBUG record, which exists only under \<open>--verbose\<close>.
  If the signature is invalid, the only record after \<open>Verifying signature ...\<close> is the
  ERROR record that names the staged file.
\<close>

theorem audit_records_at_gate:
  assumes p: "parse_args argv = Inr a"
      and run: "script env argv fs0 = (status, w')"
      and v: "VerifyFile d sp (Inr r) \<in> set (calls w')"
  shows \<open>(\<not> valid r \<longrightarrow>
            (\<exists>pre. records w' = pre @
              [(INFO, ''Verifying signature of input file against trust database''),
               (ERROR, fmt ''Signature of file "%s" is not valid'' [staged_input env a])]))
       \<and> (valid r \<and> trust_level r < required_trust_level a \<longrightarrow>
            (\<exists>pre. records w' = pre @
              [(INFO, ''Verifying signature of input file against trust database''),
               (INFO, fmt ''Sinature was signed at "%s" by "%s" with key ID "%s"''
                        [creation_date r, username r, key_id r]),
               (ERROR, fmt ''Trust level "%i" of signature did not meet specified requirements''
                         [str_int (trust_level r)])]))
       \<and> (valid r \<and> required_trust_level a \<le> trust_level r \<longrightarrow>
            (\<exists>pre post. records w' = pre @
              [(INFO, ''Verifying signature of input file against trust database''),
               (INFO, fmt ''Sinature was signed at "%s" by "%s" with key ID "%s"''
                        [creation_date r, username r, key_id r])]
              @ (if log_verbose a
                 then [(DEBUG, fmt ''Trust level of signature: "%i"'' [str_int (trust_level r)])]
                 else [])
              @ (INFO, fmt ''Moving quarantined file "%s" to output target "%s"''
                         [staged_input env a, output_path a]) # post))\<close>
proof -
  from reach_gate [OF p run v] obtain w8 where
      lv: "logger_level w8 = levelno (if log_verbose a then DEBUG else INFO)"
      and m: "(status, w') = main_verify a (staged_input env a) sp r w8"
    by blast
  from main_verify_records [OF m [symmetric] lv] show ?thesis by blast
qed

theorem audit_records_at_gate_witness:
  \<open>parse_args demo_argv = Inr demo_args
   \<and> VerifyFile ''data'' ''/home/u/pgp-cp_quar/a.bin.sig'' (Inr (demo_report True 2))
        \<in> set (calls (snd (script (toy_env 2) demo_argv demo_fs)))
   \<and> valid (demo_report True 2)
   \<and> trust_level (demo_report True 2) < required_trust_level demo_args
   \<and> (INFO, ''Sinature was signed at "2015-03-01" by "Alice" with key ID "0xA1"'')
        \<in> set (records (snd (script (toy_env 2) demo_argv demo_fs)))
   \<and> (ERROR, ''Trust level "2" of signature did not meet specified requirements'')
        \<in> set (records (snd (script (toy_env 2) demo_argv demo_fs)))\<close>
proof -
  let ?run = "script (toy_env 2) demo_argv demo_fs"
  have v: "VerifyFile ''data'' ''/home/u/pgp-cp_quar/a.bin.sig'' (Inr (demo_report True 2))
             \<in> set (calls (snd ?run))"
    by (simp add: demo_calls_rejected)
  have r: "valid (demo_report True 2)"
      "trust_level (demo_report True 2) < required_trust_level demo_args"
    by (simp_all add: demo_report_def demo_args_def)
  have f: \<open>fmt ''Sinature was signed at "%s" by "%s" with key ID "%s"''
             [creation_date (demo_report True 2), username (demo_report True 2),
              key_id (demo_report True 2)]
           = ''Sinature was signed at "2015-03-01" by "Alice" with key ID "0xA1"''\<close>
     \<open>fmt ''Trust level "%i" of signature did not meet specified requirements''
             [str_int (trust_level (demo_report True 2))]
           = ''Trust level "2" of signature did not meet specified requirements''\<close>
    by code_simp+
  from audit_records_at_gate [OF demo_parse surjective_pairing v] r
  obtain pre where \<open>records (snd ?run) = pre @
              [(INFO, ''Verifying signature of input file against trust database''),
               (INFO, ''Sinature was signed at "2015-03-01" by "Alice" with key ID "0xA1"''),
               (ERROR, ''Trust level "2" of signature did not meet specified requirements'')]\<close>
    unfolding f by blast
  then show ?thesis using v r demo_parse by simp
qed

subsection \<open>The accepted run\<close>






end
